theory Spec2Isabelle
  imports Main "HOL-Library.Sublist"
begin

section \<open>The OATH commands of ykman (\<^verbatim>\<open>ykman/cli/oath.py\<close>)\<close>

text \<open>
  The embedding follows the Python module function by function. A leading underscore of
  a Python name is dropped (\<^verbatim>\<open>_search\<close> is \<open>search\<close>), the commands \<^verbatim>\<open>code\<close> and
  \<^verbatim>\<open>delete\<close> are \<open>code_cmd\<close> and \<open>delete_cmd\<close>.
\<close>

subsection \<open>Python values\<close>

text \<open>
  Python keeps two kinds of text apart, and so does the model: \<^verbatim>\<open>bytes\<close> is a list of
  bytes, \<^verbatim>\<open>str\<close> is a list of Unicode code points. \<^verbatim>\<open>len\<close> of a \<^verbatim>\<open>str\<close> counts code
  points, \<^verbatim>\<open>len\<close> of \<^verbatim>\<open>bytes\<close> counts bytes.
\<close>

type_synonym bytes = "char list"
type_synonym pystr = "nat list"

text \<open>An ASCII literal of the source, as a \<^verbatim>\<open>str\<close>.\<close>

definition str :: "string \<Rightarrow> pystr" where
  "str s = map of_char s"

text \<open>
  \<^verbatim>\<open>s.encode("utf-8")\<close>: the bytes of one code point, and of a \<^verbatim>\<open>str\<close>. A surrogate
  or a value past U+10FFFF has no encoding (Python raises \<^verbatim>\<open>UnicodeEncodeError\<close>).
\<close>

definition utf8_char :: "nat \<Rightarrow> bytes option" where
  "utf8_char cp =
     (if cp < 0x80 then Some [char_of cp]
      else if cp < 0x800 then Some [char_of (0xC0 + cp div 64), char_of (0x80 + cp mod 64)]
      else if 0xD800 \<le> cp \<and> cp \<le> 0xDFFF then None
      else if cp < 0x10000 then
        Some [char_of (0xE0 + cp div 4096), char_of (0x80 + cp div 64 mod 64),
              char_of (0x80 + cp mod 64)]
      else if cp < 0x110000 then
        Some [char_of (0xF0 + cp div 262144), char_of (0x80 + cp div 4096 mod 64),
              char_of (0x80 + cp div 64 mod 64), char_of (0x80 + cp mod 64)]
      else None)"

fun utf8_encode :: "pystr \<Rightarrow> bytes option" where
  "utf8_encode [] = Some []"
| "utf8_encode (cp # s) =
     (case utf8_char cp of
        None \<Rightarrow> None
      | Some bs \<Rightarrow> (case utf8_encode s of None \<Rightarrow> None | Some r \<Rightarrow> Some (bs @ r)))"

text \<open>
  \<^verbatim>\<open>b.decode("utf-8")\<close>, strict: a continuation byte is \<open>0x80..0xBF\<close>; overlong
  forms, surrogates and values past U+10FFFF are refused (\<^verbatim>\<open>UnicodeDecodeError\<close>,
  here \<open>None\<close>).
\<close>

definition is_cont :: "char \<Rightarrow> bool" where
  "is_cont b = (0x80 \<le> (of_char b :: nat) \<and> (of_char b :: nat) \<le> 0xBF)"

definition cont_bits :: "char \<Rightarrow> nat" where
  "cont_bits b = of_char b - 0x80"

fun utf8_decode :: "bytes \<Rightarrow> pystr option" where
  "utf8_decode [] = Some []"
| "utf8_decode (b0 # bs) =
     (let n0 = (of_char b0 :: nat) in
      if n0 < 0x80 then map_option ((#) n0) (utf8_decode bs)
      else if 0xC2 \<le> n0 \<and> n0 \<le> 0xDF then
        (case bs of
           b1 # r \<Rightarrow>
             if is_cont b1
             then map_option ((#) ((n0 - 0xC0) * 64 + cont_bits b1)) (utf8_decode r)
             else None
         | _ \<Rightarrow> None)
      else if 0xE0 \<le> n0 \<and> n0 \<le> 0xEF then
        (case bs of
           b1 # b2 # r \<Rightarrow>
             (let cp = (n0 - 0xE0) * 4096 + cont_bits b1 * 64 + cont_bits b2 in
              if is_cont b1 \<and> is_cont b2 \<and> 0x800 \<le> cp \<and> (cp < 0xD800 \<or> 0xDFFF < cp)
              then map_option ((#) cp) (utf8_decode r)
              else None)
         | _ \<Rightarrow> None)
      else if 0xF0 \<le> n0 \<and> n0 \<le> 0xF4 then
        (case bs of
           b1 # b2 # b3 # r \<Rightarrow>
             (let cp = (n0 - 0xF0) * 262144 + cont_bits b1 * 4096 + cont_bits b2 * 64
                       + cont_bits b3 in
              if is_cont b1 \<and> is_cont b2 \<and> is_cont b3 \<and> 0x10000 \<le> cp \<and> cp < 0x110000
              then map_option ((#) cp) (utf8_decode r)
              else None)
         | _ \<Rightarrow> None)
      else None)"

text \<open>\<^verbatim>\<open>a in b\<close> for two \<^verbatim>\<open>str\<close>: \<open>a\<close> occurs in \<open>b\<close> as a contiguous piece.\<close>

fun py_in :: "'a list \<Rightarrow> 'a list \<Rightarrow> bool" where
  "py_in q [] = (q = [])"
| "py_in q (x # xs) = (prefix q (x # xs) \<or> py_in q xs)"

text \<open>
  Tuples of three integers compare lexicographically: \<^verbatim>\<open>version < (4, 2, 6)\<close>.
\<close>

type_synonym version = "nat \<times> nat \<times> nat"

fun tuple_lt :: "version \<Rightarrow> version \<Rightarrow> bool" where
  "tuple_lt (a, b, c) (x, y, z) = (a < x \<or> (a = x \<and> (b < y \<or> (b = y \<and> c < z))))"

subsection \<open>The data of the module\<close>

datatype oath_type = HOTP | TOTP

datatype hash_algorithm = SHA1 | SHA256 | SHA512

text \<open>
  \<^verbatim>\<open>CredentialData\<close>, what \<^verbatim>\<open>add\<close> builds from its arguments: \<^verbatim>\<open>name\<close> and \<^verbatim>\<open>issuer\<close>
  are \<^verbatim>\<open>str\<close> (command-line arguments), \<^verbatim>\<open>secret\<close> is \<^verbatim>\<open>bytes\<close> (the decoded base32
  key), \<^verbatim>\<open>counter\<close>, \<^verbatim>\<open>digits\<close> and \<^verbatim>\<open>period\<close> are integers.
\<close>

record credential_data =
  name :: pystr
  oath_type :: oath_type
  hash_algorithm :: hash_algorithm
  secret :: bytes
  digits :: int
  period :: int
  counter :: int
  issuer :: "pystr option"

text \<open>
  A stored \<^verbatim>\<open>Credential\<close>, with the attributes the module reads: \<^verbatim>\<open>cred.id\<close>
  (\<^verbatim>\<open>bytes\<close>), \<^verbatim>\<open>cred.oath_type\<close>, \<^verbatim>\<open>cred.period\<close> and \<^verbatim>\<open>cred.touch_required\<close>.
\<close>

record credential =
  cred_id :: bytes
  cred_oath_type :: oath_type
  cred_period :: int
  touch_required :: bool

text \<open>A \<^verbatim>\<open>Code\<close>: the module reads \<^verbatim>\<open>code.value\<close> only.\<close>

datatype otp_code = Code (val: pystr)

text \<open>Status words of an \<^verbatim>\<open>ApduError\<close> that the module tests, and any other.\<close>

datatype sw = NO_SPACE | COMMAND_ABORTED | SECURITY_CONDITION_NOT_SATISFIED | FILE_NOT_FOUND
  | OTHER_SW nat

text \<open>What a call into the session can raise: an \<^verbatim>\<open>ApduError\<close>, or some other exception.\<close>

datatype exn = ApduError sw | OtherException

text \<open>
  How a function of the module ends when it does not return: \<^verbatim>\<open>ctx.fail(message)\<close>,
  \<^verbatim>\<open>click.Abort\<close> (a declined \<^verbatim>\<open>click.confirm(..., abort=True)\<close>), \<^verbatim>\<open>ctx.exit(code)\<close>,
  an exception of the session that is not handled, and the exceptions of Python itself.
\<close>

datatype error = Fail string | Abort | Exit nat | Raised exn
  | UnicodeDecodeError | UnicodeEncodeError | ValueError | KeyError | AttributeError

abbreviation AuthenticationFailed :: error where
  "AuthenticationFailed \<equiv> Fail ''Authentication to the YubiKey failed. Wrong password?''"
abbreviation UnexpectedPassword :: error where
  "UnexpectedPassword \<equiv> Fail ''Password provided, but no password is set.''"
abbreviation InvalidName :: error where
  "InvalidName \<equiv> Fail ''Name must be between 1 and 64 bytes.''"
abbreviation SecretTooShort :: error where
  "SecretTooShort \<equiv> Fail ''Secret must be at least 2 bytes.''"
abbreviation UnsupportedTouch :: error where
  "UnsupportedTouch \<equiv> Fail ''Touch-required credentials not supported on this key.''"
abbreviation CounterNotApplicable :: error where
  "CounterNotApplicable \<equiv> Fail ''Counter only supported for HOTP credentials.''"
abbreviation UnsupportedAlgorithm :: error where
  "UnsupportedAlgorithm \<equiv> Fail ''Algorithm SHA512 not supported on this YubiKey.''"
abbreviation UnsafeOverwriteName :: error where
  "UnsafeOverwriteName \<equiv> Fail ''Choose a name that is not a subset of an existing credential.''"
abbreviation StorageFull :: error where
  "StorageFull \<equiv> Fail ''No space left on the YubiKey for OATH credentials.''"
abbreviation StorageFullAborted :: error where
  "StorageFullAborted \<equiv> Fail ''The command failed. Is there enough space on the YubiKey?''"
abbreviation TouchTimeout :: error where
  "TouchTimeout \<equiv> Fail ''Touch credential timed out!''"
abbreviation NoMatch :: error where
  "NoMatch \<equiv> Fail ''No matching credential found.''"
abbreviation Aborted :: error where
  "Aborted \<equiv> Abort"
abbreviation MultipleMatches :: error where
  "MultipleMatches \<equiv> Exit 1"

subsection \<open>Collaborators\<close>

text \<open>
  Functions the module imports and Python's own: \<^verbatim>\<open>data.get_id()\<close> (\<open>None\<close> when it
  raises \<^verbatim>\<open>UnicodeEncodeError\<close>: the id is made of the encoded name, and a name with a
  lone surrogate has no encoding), \<^verbatim>\<open>is_hidden\<close>, \<^verbatim>\<open>is_steam\<close>, \<^verbatim>\<open>is_fips_version\<close>,
  \<^verbatim>\<open>str.lower\<close>, \<^verbatim>\<open>bytes.hex\<close>, \<^verbatim>\<open>bytes.fromhex\<close> (\<open>None\<close> when it raises
  \<^verbatim>\<open>ValueError\<close>) and \<^verbatim>\<open>sorted\<close> on credentials. Their code is not in this module, so every function below takes them as
  a parameter and every theorem holds for all of them.
\<close>

record lib =
  get_id :: "credential_data \<Rightarrow> bytes option"
  is_hidden :: "credential \<Rightarrow> bool"
  is_steam :: "credential \<Rightarrow> bool"
  is_fips_version :: "version \<Rightarrow> bool"
  lower :: "pystr \<Rightarrow> pystr"
  bytes_hex :: "bytes \<Rightarrow> pystr"
  bytes_fromhex :: "pystr \<Rightarrow> bytes option"
  sorted_creds :: "credential list \<Rightarrow> credential list"

text \<open>
  The \<^verbatim>\<open>OathSession\<close> over a device in state \<open>'s\<close>. The calls the module wraps in
  \<^verbatim>\<open>try\<close> (\<^verbatim>\<open>validate\<close>, \<^verbatim>\<open>put_credential\<close>, \<^verbatim>\<open>calculate_code\<close>) return an
  exception or a value, with the device's next state. The calls it does not guard
  (\<^verbatim>\<open>derive_key\<close>, \<^verbatim>\<open>list_credentials\<close>, \<^verbatim>\<open>calculate_all\<close>, \<^verbatim>\<open>delete_credential\<close>,
  \<^verbatim>\<open>calculate_steam\<close>, and likewise \<^verbatim>\<open>settings.write\<close> and the prompts of click) are
  taken to return: the module has no branch for their failure.
\<close>

record 's oath_session =
  sess_locked :: "'s \<Rightarrow> bool"
  sess_device_id :: "'s \<Rightarrow> pystr"
  sess_version :: "'s \<Rightarrow> version"
  sess_derive_key :: "'s \<Rightarrow> pystr \<Rightarrow> bytes"
  sess_validate :: "'s \<Rightarrow> bytes \<Rightarrow> (exn + unit) \<times> 's"
  sess_list_credentials :: "'s \<Rightarrow> credential list"
  sess_put_credential :: "'s \<Rightarrow> credential_data \<Rightarrow> bool \<Rightarrow> (exn + unit) \<times> 's"
  sess_calculate_all :: "'s \<Rightarrow> (credential \<times> otp_code option) list"
  sess_calculate_code :: "'s \<Rightarrow> credential \<Rightarrow> (exn + otp_code) \<times> 's"
  sess_delete_credential :: "'s \<Rightarrow> bytes \<Rightarrow> 's"
  calculate_steam :: "'s \<Rightarrow> credential \<Rightarrow> pystr"

text \<open>
  Everything a command does beyond its result, in the order it happens: what it prints,
  what it asks the user, and each call into the session or the settings.
\<close>

datatype event =
    Echo pystr
  | EchoErr pystr
  | Prompt pystr
  | Confirm pystr
  | PromptForTouch
  | PromptTimeout
  | DeriveKey pystr
  | Validate bytes
  | SettingsWrite
  | ListCredentials
  | PutCredential credential_data bool
  | CalculateAll
  | CalculateCode credential
  | CalculateSteam credential
  | DeleteCredential bytes

text \<open>
  The state a command runs in: the device behind the session; \<^verbatim>\<open>settings["keys"]\<close>,
  the remembered keys by device id (\<open>None\<close> while the settings have no such entry) and
  the copy \<^verbatim>\<open>settings.write()\<close> last saved; and the events so far.
\<close>

record 's world =
  session :: 's
  keys :: "(pystr \<rightharpoonup> pystr) option"
  keys_file :: "(pystr \<rightharpoonup> pystr) option"
  trace :: "event list"

definition log :: "event \<Rightarrow> 's world \<Rightarrow> 's world" where
  "log e w = w\<lparr>trace := trace w @ [e]\<rparr>"

text \<open>\<^verbatim>\<open>keys = settings.setdefault("keys", {})\<close>, and the mapping \<^verbatim>\<open>keys\<close> then is.\<close>

definition setdefault_keys :: "'s world \<Rightarrow> 's world" where
  "setdefault_keys w = (case keys w of None \<Rightarrow> w\<lparr>keys := Some Map.empty\<rparr> | Some m \<Rightarrow> w)"

definition the_keys :: "'s world \<Rightarrow> (pystr \<rightharpoonup> pystr)" where
  "the_keys w = (case keys w of None \<Rightarrow> Map.empty | Some m \<Rightarrow> m)"

text \<open>\<^verbatim>\<open>settings.write()\<close>\<close>

definition settings_write :: "'s world \<Rightarrow> 's world" where
  "settings_write w = log SettingsWrite (w\<lparr>keys_file := keys w\<rparr>)"

text \<open>Python's truth value of an optional \<^verbatim>\<open>str\<close>: \<^verbatim>\<open>None\<close> and \<^verbatim>\<open>""\<close> are false.\<close>

fun truthy :: "pystr option \<Rightarrow> bool" where
  "truthy None = False"
| "truthy (Some s) = (s \<noteq> [])"

subsection \<open>Unlocking: \<^verbatim>\<open>_validate\<close> and \<^verbatim>\<open>_init_session\<close>\<close>

text \<open>
  \<^verbatim>\<open>
  def _validate(ctx, key, remember):
      try:
          session = ctx.obj["session"]
          session.validate(key)
          if remember:
              settings = ctx.obj["settings"]
              keys = settings.setdefault("keys", {})
              keys[session.device_id] = key.hex()
              settings.write()
              click.echo("Password remembered.")
      except Exception:
          ctx.fail("Authentication to the YubiKey failed. Wrong password?")
  \<close>
\<close>

definition validate ::
  "lib \<Rightarrow> 's oath_session \<Rightarrow> 's world \<Rightarrow> bytes \<Rightarrow> bool \<Rightarrow> (error + unit) \<times> 's world" where
  "validate L S w key remember =
     (case sess_validate S (session w) key of
        (Inl e, s') \<Rightarrow> (Inl AuthenticationFailed, (log (Validate key) w)\<lparr>session := s'\<rparr>)
      | (Inr u, s') \<Rightarrow>
          (let w1 = (log (Validate key) w)\<lparr>session := s'\<rparr> in
           if remember then
             (let w2 = setdefault_keys w1;
                  w3 = w2\<lparr>keys :=
                         Some ((the_keys w2)(sess_device_id S (session w2) \<mapsto> bytes_hex L key))\<rparr>;
                  w4 = settings_write w3
              in (Inr (), log (Echo (str ''Password remembered.'')) w4))
           else (Inr (), w1)))"

text \<open>
  \<^verbatim>\<open>
  def _init_session(ctx, password, remember, prompt="Enter the password"):
      session = ctx.obj["session"]
      settings = ctx.obj["settings"]
      keys = settings.setdefault("keys", {})
      device_id = session.device_id

      if session.locked:
          if password:  # If password argument given, use it
              key = session.derive_key(password)
          elif device_id in keys:  # If remembered, use key
              key = bytes.fromhex(keys[device_id])
          else:  # Prompt for password
              password = click_prompt(prompt, hide_input=True)
              key = session.derive_key(password)
          _validate(ctx, key, remember)
      elif password:
          ctx.fail("Password provided, but no password is set.")
  \<close>
  \<open>typed\<close> is what the user types if \<^verbatim>\<open>click_prompt\<close> asks. \<open>unlock_key\<close> is the
  choice of the key for a locked session: the three branches that assign \<^verbatim>\<open>key\<close>.
\<close>

definition unlock_key ::
  "lib \<Rightarrow> 's oath_session \<Rightarrow> 's world \<Rightarrow> pystr option \<Rightarrow> pystr \<Rightarrow> pystr
     \<Rightarrow> (error + bytes) \<times> 's world" where
  "unlock_key L S w password prompt typed =
     (let device_id = sess_device_id S (session w) in
      if truthy password then
        (let pw = (case password of Some p \<Rightarrow> p | None \<Rightarrow> []) in
         (Inr (sess_derive_key S (session w) pw), log (DeriveKey pw) w))
      else
        (case the_keys w device_id of
           Some h \<Rightarrow>
             (case bytes_fromhex L h of
                None \<Rightarrow> (Inl ValueError, w)
              | Some key \<Rightarrow> (Inr key, w))
         | None \<Rightarrow>
             (let w1 = log (Prompt prompt) w in
              (Inr (sess_derive_key S (session w1) typed), log (DeriveKey typed) w1))))"

definition init_session ::
  "lib \<Rightarrow> 's oath_session \<Rightarrow> 's world \<Rightarrow> pystr option \<Rightarrow> bool \<Rightarrow> pystr \<Rightarrow> pystr
     \<Rightarrow> (error + unit) \<times> 's world" where
  "init_session L S w password remember prompt typed =
     (let w0 = setdefault_keys w in
      if sess_locked S (session w0) then
        (case unlock_key L S w0 password prompt typed of
           (Inl e, w1) \<Rightarrow> (Inl e, w1)
         | (Inr key, w1) \<Rightarrow> validate L S w1 key remember)
      else if truthy password then (Inl UnexpectedPassword, w0)
      else (Inr (), w0))"

subsection \<open>Matching: \<^verbatim>\<open>_string_id\<close>, \<^verbatim>\<open>_error_multiple_hits\<close> and \<^verbatim>\<open>_search\<close>\<close>

text \<open>
  \<^verbatim>\<open>
  def _string_id(credential):
      return credential.id.decode("utf-8")
  \<close>
\<close>

definition string_id :: "credential \<Rightarrow> error + pystr" where
  "string_id credential =
     (case utf8_decode (cred_id credential) of
        None \<Rightarrow> Inl UnicodeDecodeError
      | Some s \<Rightarrow> Inr s)"

text \<open>
  \<^verbatim>\<open>
  def _error_multiple_hits(ctx, hits):
      click.echo(
          "Error: Multiple matches, please make the query more specific.", err=True
      )
      click.echo("", err=True)
      for cred in hits:
          click.echo(_string_id(cred), err=True)
      ctx.exit(1)
  \<close>
\<close>

fun echo_ids :: "'s world \<Rightarrow> credential list \<Rightarrow> (error + unit) \<times> 's world" where
  "echo_ids w [] = (Inr (), w)"
| "echo_ids w (cred # hits) =
     (case string_id cred of
        Inl e \<Rightarrow> (Inl e, w)
      | Inr s \<Rightarrow> echo_ids (log (EchoErr s) w) hits)"

definition error_multiple_hits :: "'s world \<Rightarrow> credential list \<Rightarrow> (error + unit) \<times> 's world" where
  "error_multiple_hits w hits =
     (let w1 = log (EchoErr (str ''Error: Multiple matches, please make the query more specific.'')) w;
          w2 = log (EchoErr []) w1
      in case echo_ids w2 hits of
           (Inl e, w3) \<Rightarrow> (Inl e, w3)
         | (Inr u, w3) \<Rightarrow> (Inl (Exit 1), w3))"

text \<open>
  \<^verbatim>\<open>
  def _search(creds, query, show_hidden):
      hits = []
      for c in creds:
          cred_id = _string_id(c)
          if not show_hidden and is_hidden(c):
              continue
          if cred_id == query:
              return [c]
          if query.lower() in cred_id.lower():
              hits.append(c)
      return hits
  \<close>
  \<open>search_loop\<close> is the \<^verbatim>\<open>for\<close> loop over the credentials still to visit, with the
  \<^verbatim>\<open>hits\<close> so far.
\<close>

fun search_loop :: "lib \<Rightarrow> credential list \<Rightarrow> pystr \<Rightarrow> bool \<Rightarrow> credential list
    \<Rightarrow> error + credential list" where
  "search_loop L [] query show_hidden hits = Inr hits"
| "search_loop L (c # creds) query show_hidden hits =
     (case string_id c of
        Inl e \<Rightarrow> Inl e
      | Inr cid \<Rightarrow>
          if \<not> show_hidden \<and> is_hidden L c then search_loop L creds query show_hidden hits
          else if cid = query then Inr [c]
          else if py_in (lower L query) (lower L cid)
            then search_loop L creds query show_hidden (hits @ [c])
          else search_loop L creds query show_hidden hits)"

definition search :: "lib \<Rightarrow> credential list \<Rightarrow> pystr \<Rightarrow> bool \<Rightarrow> error + credential list" where
  "search L creds query show_hidden = search_loop L creds query show_hidden []"

subsection \<open>Admission: \<^verbatim>\<open>_add_cred\<close>\<close>

text \<open>
  \<^verbatim>\<open>
  def _add_cred(ctx, data, touch, force):
      session = ctx.obj["session"]
      version = session.version

      if not (0 < len(data.name) <= 64):
          ctx.fail("Name must be between 1 and 64 bytes.")

      if len(data.secret) < 2:
          ctx.fail("Secret must be at least 2 bytes.")

      if touch and version < (4, 2, 6):
          ctx.fail("Touch-required credentials not supported on this key.")

      if data.counter and data.oath_type != OATH_TYPE.HOTP:
          ctx.fail("Counter only supported for HOTP credentials.")

      if data.hash_algorithm == HASH_ALGORITHM.SHA512 and (
          version < (4, 3, 1) or is_fips_version(version)
      ):
          ctx.fail("Algorithm SHA512 not supported on this YubiKey.")

      creds = session.list_credentials()
      cred_id = data.get_id()
      if not force and any(cred.id == cred_id for cred in creds):
          click.confirm(
              "A credential called {} already exists on this YubiKey."
              " Do you want to overwrite it?".format(data.name),
              abort=True,
              err=True,
          )

      firmware_overwrite_issue = (4, 0, 0) < version < (4, 3, 5)
      cred_is_subset = any(
          (cred.id.startswith(cred_id) and cred.id != cred_id) for cred in creds
      )

      #  YK4 has an issue with credential overwrite in firmware versions < 4.3.5
      if firmware_overwrite_issue and cred_is_subset:
          ctx.fail("Choose a name that is not a subset of an existing credential.")

      try:
          session.put_credential(data, touch)
      except ApduError as e:
          if e.sw == SW.NO_SPACE:
              ctx.fail("No space left on the YubiKey for OATH credentials.")
          elif e.sw == SW.COMMAND_ABORTED:
              # Some NEOs do not use the NO_SPACE error.
              ctx.fail("The command failed. Is there enough space on the YubiKey?")
          else:
              raise
  \<close>
  \<open>answer\<close> is what the user replies if \<^verbatim>\<open>click.confirm\<close> asks. The conditions of the
  \<^verbatim>\<open>if\<close> statements are named, one definition each, in the order of the source.
  \<^verbatim>\<open>cred_id = data.get_id()\<close> stands outside any \<^verbatim>\<open>try\<close>: when it raises, the function
  ends there, after the listing of the credentials and before the question.
\<close>

definition name_length_bad :: "credential_data \<Rightarrow> bool" where
  "name_length_bad data = (\<not> (0 < length (name data) \<and> length (name data) \<le> 64))"

definition secret_too_short :: "credential_data \<Rightarrow> bool" where
  "secret_too_short data = (length (secret data) < 2)"

definition touch_unsupported :: "version \<Rightarrow> bool \<Rightarrow> bool" where
  "touch_unsupported ver touch = (touch \<and> tuple_lt ver (4, 2, 6))"

definition counter_misused :: "credential_data \<Rightarrow> bool" where
  "counter_misused data = (counter data \<noteq> 0 \<and> oath_type data \<noteq> HOTP)"

definition sha512_unsupported :: "lib \<Rightarrow> version \<Rightarrow> credential_data \<Rightarrow> bool" where
  "sha512_unsupported L ver data =
     (hash_algorithm data = SHA512 \<and> (tuple_lt ver (4, 3, 1) \<or> is_fips_version L ver))"

definition overwrite_asked :: "credential list \<Rightarrow> bytes \<Rightarrow> bool \<Rightarrow> bool" where
  "overwrite_asked creds cid force = (\<not> force \<and> (\<exists>cred \<in> set creds. cred_id cred = cid))"

definition firmware_overwrite_issue :: "version \<Rightarrow> bool" where
  "firmware_overwrite_issue ver = (tuple_lt (4, 0, 0) ver \<and> tuple_lt ver (4, 3, 5))"

definition cred_is_subset :: "credential list \<Rightarrow> bytes \<Rightarrow> bool" where
  "cred_is_subset creds cid =
     (\<exists>cred \<in> set creds. prefix cid (cred_id cred) \<and> cred_id cred \<noteq> cid)"

definition overwrite_question :: "credential_data \<Rightarrow> pystr" where
  "overwrite_question data =
     str ''A credential called '' @ name data
       @ str '' already exists on this YubiKey. Do you want to overwrite it?''"

definition put_credential ::
  "'s oath_session \<Rightarrow> 's world \<Rightarrow> credential_data \<Rightarrow> bool \<Rightarrow> (error + unit) \<times> 's world" where
  "put_credential S w data touch =
     (case sess_put_credential S (session w) data touch of
        (Inr u, s') \<Rightarrow> (Inr (), (log (PutCredential data touch) w)\<lparr>session := s'\<rparr>)
      | (Inl (ApduError e_sw), s') \<Rightarrow>
          (if e_sw = NO_SPACE then Inl StorageFull
           else if e_sw = COMMAND_ABORTED then Inl StorageFullAborted
           else Inl (Raised (ApduError e_sw)),
           (log (PutCredential data touch) w)\<lparr>session := s'\<rparr>)
      | (Inl OtherException, s') \<Rightarrow>
          (Inl (Raised OtherException), (log (PutCredential data touch) w)\<lparr>session := s'\<rparr>))"

definition add_cred ::
  "lib \<Rightarrow> 's oath_session \<Rightarrow> 's world \<Rightarrow> credential_data \<Rightarrow> bool \<Rightarrow> bool \<Rightarrow> bool
     \<Rightarrow> (error + unit) \<times> 's world" where
  "add_cred L S w data touch force answer =
     (let ver = sess_version S (session w) in
      if name_length_bad data then (Inl InvalidName, w)
      else if secret_too_short data then (Inl SecretTooShort, w)
      else if touch_unsupported ver touch then (Inl UnsupportedTouch, w)
      else if counter_misused data then (Inl CounterNotApplicable, w)
      else if sha512_unsupported L ver data then (Inl UnsupportedAlgorithm, w)
      else
        (let creds = sess_list_credentials S (session w);
             w1 = log ListCredentials w
         in case get_id L data of
              None \<Rightarrow> (Inl UnicodeEncodeError, w1)
            | Some cid \<Rightarrow>
                (let w2 = (if overwrite_asked creds cid force
                           then log (Confirm (overwrite_question data)) w1 else w1)
                 in
                 if overwrite_asked creds cid force \<and> \<not> answer then (Inl Abort, w2)
                 else if firmware_overwrite_issue ver \<and> cred_is_subset creds cid
                   then (Inl UnsafeOverwriteName, w2)
                 else put_credential S w2 data touch)))"

text \<open>
  The checks as the specification lists them (4.4, checks 1 to 7), each with the error
  it stands for, in the specification's order; the conditions are those of the source
  above. Checks 6 and 7 are about \<^verbatim>\<open>candidate.id\<close>: where the id cannot be computed,
  the exception of \<^verbatim>\<open>get_id\<close> stands in their place. This list is what \<open>add_cred\<close> is
  compared with, it is not used by it.
\<close>

definition admission_checks ::
  "lib \<Rightarrow> version \<Rightarrow> credential list \<Rightarrow> credential_data \<Rightarrow> bool \<Rightarrow> bool \<Rightarrow> bool
     \<Rightarrow> (bool \<times> error) list" where
  "admission_checks L ver creds data touch force answer =
     [(name_length_bad data, InvalidName),
      (secret_too_short data, SecretTooShort),
      (touch_unsupported ver touch, UnsupportedTouch),
      (counter_misused data, CounterNotApplicable),
      (sha512_unsupported L ver data, UnsupportedAlgorithm)]
     @ (case get_id L data of
          None \<Rightarrow> [(True, UnicodeEncodeError)]
        | Some cid \<Rightarrow>
            [(overwrite_asked creds cid force \<and> \<not> answer, Aborted),
             (firmware_overwrite_issue ver \<and> cred_is_subset creds cid, UnsafeOverwriteName)])"

subsection \<open>Codes: the command \<^verbatim>\<open>code\<close>\<close>

text \<open>
  The block of \<^verbatim>\<open>code\<close> that runs when the search gave one credential, with
  \<^verbatim>\<open>code = entries[cred]\<close> the value of the batch:
  \<^verbatim>\<open>
          if cred.touch_required:
              prompt_for_touch()
          try:
              if cred.oath_type == OATH_TYPE.HOTP:
                  with prompt_timeout():
                      # HOTP might require touch, we don't know.
                      # Assume yes after 500ms.
                      code = session.calculate_code(cred)
              elif code is None:
                  code = session.calculate_code(cred)
          except ApduError as e:
              if e.sw == SW.SECURITY_CONDITION_NOT_SATISFIED:
                  ctx.fail("Touch credential timed out!")
  \<close>
  \<open>try_calculate_code\<close> is \<^verbatim>\<open>code = session.calculate_code(cred)\<close> under that handler:
  an \<^verbatim>\<open>ApduError\<close> with another status word ends the handler normally, and \<^verbatim>\<open>code\<close>
  keeps the value it had.
\<close>

definition try_calculate_code ::
  "'s oath_session \<Rightarrow> 's world \<Rightarrow> credential \<Rightarrow> otp_code option
     \<Rightarrow> (error + otp_code option) \<times> 's world" where
  "try_calculate_code S w cred code =
     (case sess_calculate_code S (session w) cred of
        (Inr c, s') \<Rightarrow> (Inr (Some c), (log (CalculateCode cred) w)\<lparr>session := s'\<rparr>)
      | (Inl (ApduError e_sw), s') \<Rightarrow>
          (if e_sw = SECURITY_CONDITION_NOT_SATISFIED then Inl TouchTimeout else Inr code,
           (log (CalculateCode cred) w)\<lparr>session := s'\<rparr>)
      | (Inl OtherException, s') \<Rightarrow>
          (Inl (Raised OtherException), (log (CalculateCode cred) w)\<lparr>session := s'\<rparr>))"

definition code_resolve ::
  "'s oath_session \<Rightarrow> 's world \<Rightarrow> credential \<Rightarrow> otp_code option
     \<Rightarrow> (error + otp_code option) \<times> 's world" where
  "code_resolve S w cred code =
     (let w1 = (if touch_required cred then log PromptForTouch w else w) in
      if cred_oath_type cred = HOTP then try_calculate_code S (log PromptTimeout w1) cred code
      else if code = None then try_calculate_code S w1 cred code
      else (Inr code, w1))"

text \<open>
  \<^verbatim>\<open>entries\<close> is a dictionary from credentials to codes; its keys keep their order.
  \<^verbatim>\<open>entries[cred]\<close> and \<^verbatim>\<open>entries[cred] = code\<close>:
\<close>

definition entries_get ::
  "(credential \<times> otp_code option) list \<Rightarrow> credential \<Rightarrow> error + otp_code option" where
  "entries_get entries cred =
     (case map_of entries cred of None \<Rightarrow> Inl KeyError | Some code \<Rightarrow> Inr code)"

definition entries_set ::
  "(credential \<times> otp_code option) list \<Rightarrow> credential \<Rightarrow> otp_code option
     \<Rightarrow> (credential \<times> otp_code option) list" where
  "entries_set entries cred code =
     (if cred \<in> fst ` set entries
      then map (\<lambda>(k, v). if k = cred then (k, code) else (k, v)) entries
      else entries @ [(cred, code)])"

text \<open>
  The listing of \<^verbatim>\<open>code\<close> without \<^verbatim>\<open>--single\<close>:
  \<^verbatim>\<open>
          outputs = []
          for cred in sorted(creds):
              code = entries[cred]
              if code:
                  code = code.value
              elif cred.touch_required:
                  code = "[Touch Credential]"
              elif cred.oath_type == OATH_TYPE.HOTP:
                  code = "[HOTP Credential]"
              else:
                  code = ""
              if is_steam(cred):
                  code = calculate_steam(session, cred)
              outputs.append((_string_id(cred), code))

          longest_name = max(len(n) for (n, c) in outputs) if outputs else 0
          longest_code = max(len(c) for (n, c) in outputs) if outputs else 0
          format_str = u"{:<%d}  {:>%d}" % (longest_name, longest_code)

          for name, result in outputs:
              click.echo(format_str.format(name, result))
  \<close>
\<close>

definition code_text :: "credential \<Rightarrow> otp_code option \<Rightarrow> pystr" where
  "code_text cred code =
     (case code of
        Some c \<Rightarrow> val c
      | None \<Rightarrow>
          if touch_required cred then str ''[Touch Credential]''
          else if cred_oath_type cred = HOTP then str ''[HOTP Credential]''
          else [])"

fun outputs_loop ::
  "lib \<Rightarrow> 's oath_session \<Rightarrow> 's world \<Rightarrow> (credential \<times> otp_code option) list
     \<Rightarrow> credential list \<Rightarrow> (pystr \<times> pystr) list \<Rightarrow> (error + (pystr \<times> pystr) list) \<times> 's world" where
  "outputs_loop L S w entries [] outputs = (Inr outputs, w)"
| "outputs_loop L S w entries (cred # creds) outputs =
     (case entries_get entries cred of
        Inl e \<Rightarrow> (Inl e, w)
      | Inr code \<Rightarrow>
          (let w1 = (if is_steam L cred then log (CalculateSteam cred) w else w);
               text = (if is_steam L cred then calculate_steam S (session w) cred
                       else code_text cred code)
           in case string_id cred of
                Inl e \<Rightarrow> (Inl e, w1)
              | Inr sid \<Rightarrow> outputs_loop L S w1 entries creds (outputs @ [(sid, text)])))"

definition ljust :: "nat \<Rightarrow> pystr \<Rightarrow> pystr" where
  "ljust n s = s @ replicate (n - length s) 32"

definition rjust :: "nat \<Rightarrow> pystr \<Rightarrow> pystr" where
  "rjust n s = replicate (n - length s) 32 @ s"

definition echo_outputs :: "'s world \<Rightarrow> (pystr \<times> pystr) list \<Rightarrow> 's world" where
  "echo_outputs w outputs =
     (let longest_name = fold max (map (\<lambda>(n, c). length n) outputs) 0;
          longest_code = fold max (map (\<lambda>(n, c). length c) outputs) 0
      in fold (\<lambda>(n, result) w'. log (Echo (ljust longest_name n @ [32, 32] @ rjust longest_code result)) w')
           outputs w)"

definition code_listing ::
  "lib \<Rightarrow> 's oath_session \<Rightarrow> 's world \<Rightarrow> (credential \<times> otp_code option) list
     \<Rightarrow> credential list \<Rightarrow> (error + unit) \<times> 's world" where
  "code_listing L S w entries creds =
     (case outputs_loop L S w entries (sorted_creds L creds) [] of
        (Inl e, w1) \<Rightarrow> (Inl e, w1)
      | (Inr outputs, w1) \<Rightarrow> (Inr (), echo_outputs w1 outputs))"

text \<open>
  The command, from \<^verbatim>\<open>_init_session\<close> on:
  \<^verbatim>\<open>
      _init_session(ctx, password, remember)

      session = ctx.obj["session"]
      entries = session.calculate_all()
      creds = _search(entries.keys(), query, show_hidden)

      if len(creds) == 1:
          cred = creds[0]
          code = entries[cred]
          ... (the block above)
          entries[cred] = code

      elif single and len(creds) > 1:
          _error_multiple_hits(ctx, creds)

      elif single and len(creds) == 0:
          ctx.fail("No matching credential found.")

      if single and creds:
          if is_steam(cred):
              click.echo(calculate_steam(session, cred))
          else:
              click.echo(code.value)
      else:
          ... (the listing above)
  \<close>
\<close>

definition code_cmd ::
  "lib \<Rightarrow> 's oath_session \<Rightarrow> 's world \<Rightarrow> bool \<Rightarrow> pystr \<Rightarrow> bool \<Rightarrow> pystr option \<Rightarrow> bool \<Rightarrow> pystr
     \<Rightarrow> (error + unit) \<times> 's world" where
  "code_cmd L S w show_hidden query single password remember typed =
     (case init_session L S w password remember (str ''Enter the password'') typed of
        (Inl e, w1) \<Rightarrow> (Inl e, w1)
      | (Inr u, w1) \<Rightarrow>
          (let entries = sess_calculate_all S (session w1);
               w2 = log CalculateAll w1
           in case search L (map fst entries) query show_hidden of
                Inl e \<Rightarrow> (Inl e, w2)
              | Inr creds \<Rightarrow>
                  (case creds of
                     [cred] \<Rightarrow>
                       (case entries_get entries cred of
                          Inl e \<Rightarrow> (Inl e, w2)
                        | Inr code \<Rightarrow>
                            (case code_resolve S w2 cred code of
                               (Inl e, w3) \<Rightarrow> (Inl e, w3)
                             | (Inr code', w3) \<Rightarrow>
                                 if single then
                                   (if is_steam L cred
                                    then (Inr (), log (Echo (calculate_steam S (session w3) cred))
                                                    (log (CalculateSteam cred) w3))
                                    else (case code' of
                                            None \<Rightarrow> (Inl AttributeError, w3)
                                          | Some c \<Rightarrow> (Inr (), log (Echo (val c)) w3)))
                                 else code_listing L S w3 (entries_set entries cred code') creds))
                   | _ \<Rightarrow>
                       if single \<and> length creds > 1 then error_multiple_hits w2 creds
                       else if single \<and> length creds = 0 then (Inl NoMatch, w2)
                       else code_listing L S w2 entries creds)))"

subsection \<open>The command \<^verbatim>\<open>delete\<close>\<close>

text \<open>
  \<^verbatim>\<open>
      _init_session(ctx, password, remember)
      session = ctx.obj["session"]
      creds = session.list_credentials()
      hits = _search(creds, query, True)
      if len(hits) == 0:
          click.echo("No matches, nothing to be done.")
      elif len(hits) == 1:
          cred = hits[0]
          if force or (
              click.confirm(
                  u"Delete credential: {} ?".format(_string_id(cred)),
                  default=False,
                  err=True,
              )
          ):
              session.delete_credential(cred.id)
              click.echo(u"Deleted {}.".format(_string_id(cred)))
          else:
              click.echo("Deletion aborted by user.")

      else:
          _error_multiple_hits(ctx, hits)
  \<close>
  \<open>delete_one\<close> is the branch for one hit.
\<close>

definition delete_credential :: "'s oath_session \<Rightarrow> 's world \<Rightarrow> credential \<Rightarrow> (error + unit) \<times> 's world" where
  "delete_credential S w cred =
     (let w1 = (log (DeleteCredential (cred_id cred)) w)
                 \<lparr>session := sess_delete_credential S (session w) (cred_id cred)\<rparr>
      in case string_id cred of
           Inl e \<Rightarrow> (Inl e, w1)
         | Inr sid \<Rightarrow> (Inr (), log (Echo (str ''Deleted '' @ sid @ str ''.'')) w1))"

definition delete_one ::
  "'s oath_session \<Rightarrow> 's world \<Rightarrow> credential \<Rightarrow> bool \<Rightarrow> bool \<Rightarrow> (error + unit) \<times> 's world" where
  "delete_one S w cred force answer =
     (if force then delete_credential S w cred
      else
        (case string_id cred of
           Inl e \<Rightarrow> (Inl e, w)
         | Inr sid \<Rightarrow>
             (let w1 = log (Confirm (str ''Delete credential: '' @ sid @ str '' ?'')) w in
              if answer then delete_credential S w1 cred
              else (Inr (), log (Echo (str ''Deletion aborted by user.'')) w1))))"

definition delete_cmd ::
  "lib \<Rightarrow> 's oath_session \<Rightarrow> 's world \<Rightarrow> pystr \<Rightarrow> bool \<Rightarrow> pystr option \<Rightarrow> bool \<Rightarrow> pystr \<Rightarrow> bool
     \<Rightarrow> (error + unit) \<times> 's world" where
  "delete_cmd L S w query force password remember typed answer =
     (case init_session L S w password remember (str ''Enter the password'') typed of
        (Inl e, w1) \<Rightarrow> (Inl e, w1)
      | (Inr u, w1) \<Rightarrow>
          (let creds = sess_list_credentials S (session w1);
               w2 = log ListCredentials w1
           in case search L creds query True of
                Inl e \<Rightarrow> (Inl e, w2)
              | Inr hits \<Rightarrow>
                  if length hits = 0
                    then (Inr (), log (Echo (str ''No matches, nothing to be done.'')) w2)
                  else if length hits = 1 then delete_one S w2 (hits ! 0) force answer
                  else error_multiple_hits w2 hits))"

subsection \<open>Stand-ins for the collaborators\<close>

text \<open>
  The theorems below hold for every \<open>lib\<close> and every \<open>oath_session\<close>. Where one of
  them is applied to a concrete input, these stand-ins are the collaborators: ids are
  the UTF-8 bytes of the name, a credential is hidden when its id starts with
  \<^verbatim>\<open>_hidden:\<close>, \<open>lower\<close> lowers ASCII letters, and the device is a record whose fields
  fix what each call of the session answers. Its \<^verbatim>\<open>calculate_all\<close> gives a code to the
  TOTP credentials that need no touch and \<^verbatim>\<open>None\<close> to the others.
\<close>

definition ascii_lower :: "pystr \<Rightarrow> pystr" where
  "ascii_lower s = map (\<lambda>cp. if 65 \<le> cp \<and> cp \<le> 90 then cp + 32 else cp) s"

definition ex_lib :: lib where
  "ex_lib =
     \<lparr>get_id = (\<lambda>d. utf8_encode (name d)),
      is_hidden = (\<lambda>c. prefix ''_hidden:'' (cred_id c)),
      is_steam = (\<lambda>c. prefix ''Steam:'' (cred_id c)),
      is_fips_version = (\<lambda>v. False),
      lower = ascii_lower,
      bytes_hex = (\<lambda>b. map of_char b),
      bytes_fromhex = (\<lambda>s. Some (map char_of s)),
      sorted_creds = (\<lambda>cs. cs)\<rparr>"

record device =
  dev_locked :: bool
  dev_version :: version
  dev_creds :: "credential list"
  dev_key :: bytes
  dev_batch :: "otp_code option"
  dev_calc :: "exn + otp_code"
  dev_put :: "exn + unit"

definition ex_session :: "device oath_session" where
  "ex_session =
     \<lparr>sess_locked = dev_locked,
      sess_device_id = (\<lambda>s. str ''1234''),
      sess_version = dev_version,
      sess_derive_key = (\<lambda>s pw. if pw = str ''pw'' then ''key'' else ''wrong''),
      sess_validate = (\<lambda>s key.
        if key = dev_key s then (Inr (), s\<lparr>dev_locked := False\<rparr>)
        else (Inl (ApduError (OTHER_SW 0x6A80)), s)),
      sess_list_credentials = dev_creds,
      sess_put_credential = (\<lambda>s d t.
        case dev_put s of
          Inl e \<Rightarrow> (Inl e, s)
        | Inr u \<Rightarrow>
            (Inr (), s\<lparr>dev_creds := dev_creds s @
               [\<lparr>cred_id = (case get_id ex_lib d of Some i \<Rightarrow> i | None \<Rightarrow> []),
                 cred_oath_type = oath_type d,
                 cred_period = period d, touch_required = t\<rparr>]\<rparr>)),
      sess_calculate_all = (\<lambda>s.
        map (\<lambda>c. (c, if cred_oath_type c = HOTP \<or> touch_required c then None else dev_batch s))
          (dev_creds s)),
      sess_calculate_code = (\<lambda>s c. (dev_calc s, s)),
      sess_delete_credential = (\<lambda>s i. s\<lparr>dev_creds := filter (\<lambda>c. cred_id c \<noteq> i) (dev_creds s)\<rparr>),
      calculate_steam = (\<lambda>s c. str ''STEAM'')\<rparr>"

definition ex_device :: "version \<Rightarrow> credential list \<Rightarrow> device" where
  "ex_device ver creds =
     \<lparr>dev_locked = False, dev_version = ver, dev_creds = creds, dev_key = ''key'',
      dev_batch = Some (Code (str ''111111'')), dev_calc = Inr (Code (str ''222222'')),
      dev_put = Inr ()\<rparr>"

definition ex_world :: "device \<Rightarrow> device world" where
  "ex_world d = \<lparr>session = d, keys = None, keys_file = None, trace = []\<rparr>"

definition ex_cred :: "bytes \<Rightarrow> oath_type \<Rightarrow> credential" where
  "ex_cred i t = \<lparr>cred_id = i, cred_oath_type = t, cred_period = 30, touch_required = False\<rparr>"

definition ex_data :: "pystr \<Rightarrow> credential_data" where
  "ex_data n =
     \<lparr>name = n, oath_type = TOTP, hash_algorithm = SHA1, secret = ''secret'', digits = 6,
      period = 30, counter = 0, issuer = None\<rparr>"

text \<open>A name of 64 code points whose UTF-8 encoding has 65 bytes: 63 times "a", then "e" with an acute accent (U+00E9).\<close>

definition ex_name65 :: pystr where
  "ex_name65 = replicate 63 97 @ [233]"

section \<open>Properties\<close>

subsection \<open>UTF-8\<close>

text \<open>
  The two directions of the codec agree: what \<open>utf8_encode\<close> produces, \<open>utf8_decode\<close>
  reads back.
\<close>

lemma of_char_char_of_nat: "n < 256 \<Longrightarrow> (of_char (char_of (n::nat)) :: nat) = n"
  by (simp add: of_char_of)

lemma utf8_decode_char:
  assumes "utf8_char cp = Some bs"
  shows "utf8_decode (bs @ r) = map_option ((#) cp) (utf8_decode r)"
proof -
  consider (one) "cp < 0x80" | (two) "0x80 \<le> cp" "cp < 0x800"
    | (three) "0x800 \<le> cp" "cp < 0x10000" "cp < 0xD800 \<or> 0xDFFF < cp"
    | (four) "0x10000 \<le> cp" "cp < 0x110000"
    using assms by (auto simp: utf8_char_def split: if_splits)
  then show ?thesis
  proof cases
    case one
    with assms show ?thesis
      by (auto simp: utf8_char_def of_char_char_of_nat)
  next
    case two
    then have b0: "0xC0 + cp div 64 < 256" "0xC2 \<le> 0xC0 + cp div 64" "0xC0 + cp div 64 \<le> 0xDF"
      and b1: "0x80 + cp mod 64 < 256"
      by simp_all
    from two assms have bs: "bs = [char_of (0xC0 + cp div 64), char_of (0x80 + cp mod 64)]"
      by (simp add: utf8_char_def)
    have m: "cp mod 64 \<le> 63" by simp
    have cp: "cp div 64 * 64 + cp mod 64 = cp" by simp
    show ?thesis
      unfolding bs using b0 b1 m
      by (simp add: of_char_char_of_nat is_cont_def cont_bits_def Let_def cp)
  next
    case three
    then have b0: "0xE0 + cp div 4096 < 256" "0xE0 \<le> 0xE0 + cp div 4096" "0xE0 + cp div 4096 \<le> 0xEF"
      and b1: "0x80 + cp div 64 mod 64 < 256" and b2: "0x80 + cp mod 64 < 256"
      by simp_all
    have d: "cp div 4096 = cp div 64 div 64"
      by (simp add: div_mult2_eq)
    have e: "(a * 64 + b) * 64 = a * 4096 + b * 64" for a b :: nat
      by simp
    have "(cp div 64 div 64 * 64 + cp div 64 mod 64) * 64 + cp mod 64 = cp"
      by simp
    then have "cp div 64 div 64 * 4096 + cp div 64 mod 64 * 64 + cp mod 64 = cp"
      unfolding e .
    then have cp: "cp div 4096 * 4096 + cp div 64 mod 64 * 64 + cp mod 64 = cp"
      unfolding d .
    from three assms
    have bs: "bs = [char_of (0xE0 + cp div 4096), char_of (0x80 + cp div 64 mod 64),
                    char_of (0x80 + cp mod 64)]"
      by (auto simp: utf8_char_def)
    have m: "cp mod 64 \<le> 63" "cp div 64 mod 64 \<le> 63" by simp_all
    show ?thesis
      unfolding bs using b0 b1 b2 three m
      by (simp add: of_char_char_of_nat is_cont_def cont_bits_def Let_def cp)
  next
    case four
    then have b0: "0xF0 + cp div 262144 < 256" "0xF0 \<le> 0xF0 + cp div 262144"
        "0xF0 + cp div 262144 \<le> 0xF4"
      and b1: "0x80 + cp div 4096 mod 64 < 256" and b2: "0x80 + cp div 64 mod 64 < 256"
      and b3: "0x80 + cp mod 64 < 256"
      by simp_all
    have d: "cp div 4096 = cp div 64 div 64" "cp div 262144 = cp div 64 div 64 div 64"
      by (simp_all add: div_mult2_eq)
    have e: "((a * 64 + b) * 64 + c) * 64 = a * 262144 + b * 4096 + c * 64" for a b c :: nat
      by simp
    have "((cp div 64 div 64 div 64 * 64 + cp div 64 div 64 mod 64) * 64 + cp div 64 mod 64) * 64
            + cp mod 64 = cp"
      by simp
    then have "cp div 64 div 64 div 64 * 262144 + cp div 64 div 64 mod 64 * 4096
                 + cp div 64 mod 64 * 64 + cp mod 64 = cp"
      unfolding e .
    then have cp: "cp div 262144 * 262144 + cp div 4096 mod 64 * 4096 + cp div 64 mod 64 * 64
                + cp mod 64 = cp"
      unfolding d .
    from four assms
    have bs: "bs = [char_of (0xF0 + cp div 262144), char_of (0x80 + cp div 4096 mod 64),
                    char_of (0x80 + cp div 64 mod 64), char_of (0x80 + cp mod 64)]"
      by (auto simp: utf8_char_def)
    have m: "cp mod 64 \<le> 63" "cp div 64 mod 64 \<le> 63" "cp div 4096 mod 64 \<le> 63" by simp_all
    show ?thesis
      unfolding bs using b0 b1 b2 b3 four m
      by (simp add: of_char_char_of_nat is_cont_def cont_bits_def Let_def cp)
  qed
qed

lemma utf8_decode_encode: "utf8_encode s = Some bs \<Longrightarrow> utf8_decode bs = Some s"
proof (induction s arbitrary: bs)
  case Nil
  then show ?case by simp
next
  case (Cons cp s)
  from Cons.prems obtain b r where b: "utf8_char cp = Some b" and r: "utf8_encode s = Some r"
    and bs: "bs = b @ r"
    by (auto split: option.splits)
  from utf8_decode_char [OF b, of r] Cons.IH [OF r] bs show ?case by simp
qed

subsection \<open>Matching\<close>

lemma py_in_sublist: "py_in q s = sublist q s"
  by (induction s) (auto simp: sublist_Cons_right)

lemma find_filter: "find P (filter Q xs) = find (\<lambda>x. Q x \<and> P x) xs"
  by (induction xs) auto

text \<open>
  The loop, when every id it visits is UTF-8: the first visible credential whose id is
  the query ends it; without one, the hits are the visible credentials that contain
  the query, added to those so far.
\<close>

lemma search_loop_char:
  assumes "\<forall>c\<in>set creds. \<exists>s. string_id c = Inr s"
  shows "search_loop L creds q sh hits =
    (case find (\<lambda>c. (sh \<or> \<not> is_hidden L c) \<and> string_id c = Inr q) creds of
       Some c \<Rightarrow> Inr [c]
     | None \<Rightarrow> Inr (hits @ filter (\<lambda>c. (sh \<or> \<not> is_hidden L c) \<and>
                  (\<exists>s. string_id c = Inr s \<and> sublist (lower L q) (lower L s))) creds))"
  using assms
  by (induction creds arbitrary: hits) (auto simp: py_in_sublist split: sum.splits option.splits)

lemma search_loop_not_hidden:
  "search_loop L creds q False hits = Inr r \<Longrightarrow>
     set r \<subseteq> set hits \<union> {c \<in> set creds. \<not> is_hidden L c}"
proof (induction creds arbitrary: hits)
  case Nil
  then show ?case by simp
next
  case (Cons c creds)
  show ?case
  proof (cases "string_id c")
    case (Inl e)
    with Cons.prems show ?thesis by simp
  next
    case (Inr cid)
    show ?thesis
    proof (cases "is_hidden L c")
      case True
      with Inr Cons.prems have "search_loop L creds q False hits = Inr r" by simp
      from Cons.IH [OF this] show ?thesis by auto
    next
      case False
      show ?thesis
      proof (cases "cid = q")
        case True
        with Inr False Cons.prems have "r = [c]" by simp
        with False show ?thesis by simp
      next
        case ne: False
        show ?thesis
        proof (cases "py_in (lower L q) (lower L cid)")
          case True
          with Inr False ne Cons.prems
          have "search_loop L creds q False (hits @ [c]) = Inr r" by simp
          from Cons.IH [OF this] False show ?thesis by auto
        next
          case nin: False
          with Inr False ne Cons.prems
          have "search_loop L creds q False hits = Inr r" by simp
          from Cons.IH [OF this] show ?thesis by auto
        qed
      qed
    qed
  qed
qed

text \<open>One round of the loop, for a credential whose id is UTF-8.\<close>

lemma search_loop_step:
  assumes "string_id c = Inr cid"
  obtains (skip) "search_loop L (c # creds) q sh hits = search_loop L creds q sh hits"
    | (exact) "search_loop L (c # creds) q sh hits = Inr [c]"
    | (hit) "search_loop L (c # creds) q sh hits = search_loop L creds q sh (hits @ [c])"
proof (cases "\<not> sh \<and> is_hidden L c")
  case True
  with assms have "search_loop L (c # creds) q sh hits = search_loop L creds q sh hits"
    by simp
  then show ?thesis by (rule skip)
next
  case vis: False
  show ?thesis
  proof (cases "cid = q")
    case True
    with assms vis have "search_loop L (c # creds) q sh hits = Inr [c]"
      by auto
    then show ?thesis by (rule exact)
  next
    case ne: False
    show ?thesis
    proof (cases "py_in (lower L q) (lower L cid)")
      case True
      with assms vis ne
      have "search_loop L (c # creds) q sh hits = search_loop L creds q sh (hits @ [c])"
        by auto
      then show ?thesis by (rule hit)
    next
      case False
      with assms vis ne
      have "search_loop L (c # creds) q sh hits = search_loop L creds q sh hits"
        by auto
      then show ?thesis by (rule skip)
    qed
  qed
qed

text \<open>The hits of a search are credentials of the collection, and their ids are UTF-8.\<close>

lemma search_loop_subset:
  "search_loop L creds q sh hits = Inr r \<Longrightarrow> set r \<subseteq> set hits \<union> set creds"
proof (induction creds arbitrary: hits)
  case Nil
  then show ?case by simp
next
  case (Cons c creds)
  show ?case
  proof (cases "string_id c")
    case (Inl e)
    with Cons.prems show ?thesis by simp
  next
    case (Inr cid)
    then show ?thesis
    proof (cases rule: search_loop_step [where L = L and creds = creds and q = q and sh = sh
          and hits = hits])
      case skip
      with Cons.prems have "search_loop L creds q sh hits = Inr r" by simp
      from Cons.IH [OF this] show ?thesis by auto
    next
      case exact
      with Cons.prems have "r = [c]" by simp
      then show ?thesis by simp
    next
      case hit
      with Cons.prems have "search_loop L creds q sh (hits @ [c]) = Inr r" by simp
      from Cons.IH [OF this] show ?thesis by auto
    qed
  qed
qed

lemma search_loop_decoded:
  "search_loop L creds q sh hits = Inr r \<Longrightarrow> \<forall>c\<in>set hits. \<exists>s. string_id c = Inr s
     \<Longrightarrow> \<forall>c\<in>set r. \<exists>s. string_id c = Inr s"
proof (induction creds arbitrary: hits)
  case Nil
  then show ?case by simp
next
  case (Cons c creds)
  show ?case
  proof (cases "string_id c")
    case (Inl e)
    with Cons.prems show ?thesis by simp
  next
    case (Inr cid)
    then show ?thesis
    proof (cases rule: search_loop_step [where L = L and creds = creds and q = q and sh = sh
          and hits = hits])
      case skip
      with Cons.prems have "search_loop L creds q sh hits = Inr r" by simp
      from Cons.IH [OF this Cons.prems(2)] show ?thesis .
    next
      case exact
      with Cons.prems have "r = [c]" by simp
      with Inr show ?thesis by simp
    next
      case hit
      with Cons.prems have *: "search_loop L creds q sh (hits @ [c]) = Inr r" by simp
      from Cons.prems(2) Inr have "\<forall>c\<in>set (hits @ [c]). \<exists>s. string_id c = Inr s" by simp
      from Cons.IH [OF * this] show ?thesis .
    qed
  qed
qed

text \<open>The ids of the stand-in credentials that are ASCII.\<close>

lemma string_id_ex_cred_ascii:
  "\<forall>b\<in>set i. (of_char b :: nat) < 0x80 \<Longrightarrow> string_id (ex_cred i t) = Inr (str i)"
proof -
  have "\<forall>b\<in>set i. (of_char b :: nat) < 0x80 \<Longrightarrow> utf8_decode i = Some (map of_char i)"
    by (induction i) auto
  then show "\<forall>b\<in>set i. (of_char b :: nat) < 0x80 \<Longrightarrow> string_id (ex_cred i t) = Inr (str i)"
    by (simp add: string_id_def ex_cred_def str_def)
qed

lemma ex_ids:
  "string_id (ex_cred ''xAbc'' t) = Inr (str ''xAbc'')"
  "string_id (ex_cred ''ab'' t) = Inr (str ''ab'')"
  "string_id (ex_cred ''cab'' t) = Inr (str ''cab'')"
  "string_id (ex_cred ''zz'' t) = Inr (str ''zz'')"
  "string_id (ex_cred ''_hidden:ab'' t) = Inr (str ''_hidden:ab'')"
  "string_id (ex_cred ''x_hidden:abc'' t) = Inr (str ''x_hidden:abc'')"
  "string_id (ex_cred ''A'' t) = Inr (str ''A'')"
  "string_id (ex_cred ''AB'' t) = Inr (str ''AB'')"
  by (simp_all add: string_id_ex_cred_ascii)

text \<open>
  C2. With hidden credentials shown, and every id of the collection UTF-8 (so that each
  credential has a display identifier): when some credential's display identifier is the
  query, the search returns the first such credential alone, whatever else contains the
  query; otherwise it returns, in their order, the credentials whose lowered display
  identifier contains the lowered query. An empty query that is no credential's
  identifier returns all of them (\<^verbatim>\<open>"".lower()\<close> is \<^verbatim>\<open>""\<close>).
\<close>

theorem search_show_hidden:
  assumes "\<forall>c\<in>set creds. \<exists>s. string_id c = Inr s"
  shows "search L creds q True =
           (case find (\<lambda>c. string_id c = Inr q) creds of
              Some c \<Rightarrow> Inr [c]
            | None \<Rightarrow>
                Inr (filter (\<lambda>c. \<exists>s. string_id c = Inr s \<and> sublist (lower L q) (lower L s)) creds))
         \<and> (lower L [] = [] \<longrightarrow> (\<forall>c\<in>set creds. string_id c \<noteq> Inr [])
              \<longrightarrow> search L creds [] True = Inr creds)"
proof (intro conjI impI)
  show "search L creds q True =
           (case find (\<lambda>c. string_id c = Inr q) creds of
              Some c \<Rightarrow> Inr [c]
            | None \<Rightarrow>
                Inr (filter (\<lambda>c. \<exists>s. string_id c = Inr s \<and> sublist (lower L q) (lower L s)) creds))"
    unfolding search_def using search_loop_char [OF assms, of L q True "[]"]
    by (simp split: option.splits)
next
  assume low: "lower L [] = []" and ne: "\<forall>c\<in>set creds. string_id c \<noteq> Inr []"
  from ne have none: "find (\<lambda>c. (True \<or> \<not> is_hidden L c) \<and> string_id c = Inr []) creds = None"
    by (simp add: find_None_iff)
  from assms low
  have all: "filter (\<lambda>c. (True \<or> \<not> is_hidden L c) \<and>
               (\<exists>s. string_id c = Inr s \<and> sublist (lower L []) (lower L s))) creds = creds"
    by (auto simp: filter_id_conv)
  show "search L creds [] True = Inr creds"
    unfolding search_def search_loop_char [OF assms, of L "[]" True "[]"] none all
    by simp
qed

theorem search_show_hidden_witness:
  "search ex_lib [ex_cred ''xAbc'' TOTP, ex_cred ''ab'' TOTP, ex_cred ''cab'' HOTP] (str ''ab'') True
     = Inr [ex_cred ''ab'' TOTP]
   \<and> search ex_lib [ex_cred ''xAbc'' TOTP, ex_cred ''ab'' TOTP, ex_cred ''zz'' HOTP] (str ''AB'') True
     = Inr [ex_cred ''xAbc'' TOTP, ex_cred ''ab'' TOTP]
   \<and> search ex_lib [ex_cred ''xAbc'' TOTP, ex_cred ''_hidden:ab'' TOTP] [] True
     = Inr [ex_cred ''xAbc'' TOTP, ex_cred ''_hidden:ab'' TOTP]"
proof (intro conjI)
  have h1: "\<forall>c\<in>set [ex_cred ''xAbc'' TOTP, ex_cred ''ab'' TOTP, ex_cred ''cab'' HOTP].
              \<exists>s. string_id c = Inr s"
    by (simp add: ex_ids)
  have "find (\<lambda>c. string_id c = Inr (str ''ab''))
          [ex_cred ''xAbc'' TOTP, ex_cred ''ab'' TOTP, ex_cred ''cab'' HOTP]
        = Some (ex_cred ''ab'' TOTP)"
    by (simp add: ex_ids str_def)
  with search_show_hidden [OF h1, of ex_lib "str ''ab''", THEN conjunct1]
  show "search ex_lib [ex_cred ''xAbc'' TOTP, ex_cred ''ab'' TOTP, ex_cred ''cab'' HOTP]
          (str ''ab'') True = Inr [ex_cred ''ab'' TOTP]"
    by simp
next
  have h2: "\<forall>c\<in>set [ex_cred ''xAbc'' TOTP, ex_cred ''ab'' TOTP, ex_cred ''zz'' HOTP].
              \<exists>s. string_id c = Inr s"
    by (simp add: ex_ids)
  have f: "find (\<lambda>c. string_id c = Inr (str ''AB''))
          [ex_cred ''xAbc'' TOTP, ex_cred ''ab'' TOTP, ex_cred ''zz'' HOTP] = None"
    by (simp add: ex_ids str_def)
  have g: "filter (\<lambda>c. \<exists>s. string_id c = Inr s
                       \<and> sublist (lower ex_lib (str ''AB'')) (lower ex_lib s))
          [ex_cred ''xAbc'' TOTP, ex_cred ''ab'' TOTP, ex_cred ''zz'' HOTP]
        = [ex_cred ''xAbc'' TOTP, ex_cred ''ab'' TOTP]"
    by (simp add: ex_ids str_def ex_lib_def ascii_lower_def py_in_sublist [symmetric])
  from search_show_hidden [OF h2, of ex_lib "str ''AB''", THEN conjunct1] f g
  show "search ex_lib [ex_cred ''xAbc'' TOTP, ex_cred ''ab'' TOTP, ex_cred ''zz'' HOTP]
          (str ''AB'') True = Inr [ex_cred ''xAbc'' TOTP, ex_cred ''ab'' TOTP]"
    by simp
next
  have h3: "\<forall>c\<in>set [ex_cred ''xAbc'' TOTP, ex_cred ''_hidden:ab'' TOTP].
              \<exists>s. string_id c = Inr s"
    by (simp add: ex_ids)
  have low: "lower ex_lib [] = []"
    by (simp add: ex_lib_def ascii_lower_def)
  have ne: "\<forall>c\<in>set [ex_cred ''xAbc'' TOTP, ex_cred ''_hidden:ab'' TOTP]. string_id c \<noteq> Inr []"
    by (simp add: ex_ids str_def)
  from search_show_hidden [OF h3, of ex_lib "[]", THEN conjunct2] low ne
  show "search ex_lib [ex_cred ''xAbc'' TOTP, ex_cred ''_hidden:ab'' TOTP] [] True
          = Inr [ex_cred ''xAbc'' TOTP, ex_cred ''_hidden:ab'' TOTP]"
    by blast
qed

text \<open>
  C3. A search that does not show hidden credentials returns none: every hit has
  \<^verbatim>\<open>is_hidden\<close> false, whatever the query. The filter comes before the test for an exact
  match: when every id is UTF-8, the search is the search, with hidden credentials
  shown, of the collection without its hidden credentials.
\<close>

theorem search_excludes_hidden:
  "(search L creds q False = Inr hits \<longrightarrow> (\<forall>c\<in>set hits. \<not> is_hidden L c))
   \<and> ((\<forall>c\<in>set creds. \<exists>s. string_id c = Inr s) \<longrightarrow>
        search L creds q False = search L (filter (\<lambda>c. \<not> is_hidden L c) creds) q True)"
proof (intro conjI impI)
  assume "search L creds q False = Inr hits"
  then have "set hits \<subseteq> set [] \<union> {c \<in> set creds. \<not> is_hidden L c}"
    unfolding search_def by (rule search_loop_not_hidden)
  then show "\<forall>c\<in>set hits. \<not> is_hidden L c" by auto
next
  assume dec: "\<forall>c\<in>set creds. \<exists>s. string_id c = Inr s"
  then have dec': "\<forall>c\<in>set (filter (\<lambda>c. \<not> is_hidden L c) creds). \<exists>s. string_id c = Inr s"
    by simp
  show "search L creds q False = search L (filter (\<lambda>c. \<not> is_hidden L c) creds) q True"
    unfolding search_def search_loop_char [OF dec] search_loop_char [OF dec']
    by (simp add: find_filter conj_commute split: option.splits cong: conj_cong)
qed

theorem search_excludes_hidden_witness:
  "search ex_lib [ex_cred ''_hidden:ab'' TOTP, ex_cred ''x_hidden:abc'' TOTP] (str ''_hidden:ab'') False
     = Inr [ex_cred ''x_hidden:abc'' TOTP]
   \<and> is_hidden ex_lib (ex_cred ''_hidden:ab'' TOTP)
   \<and> \<not> is_hidden ex_lib (ex_cred ''x_hidden:abc'' TOTP)"
proof -
  let ?creds = "[ex_cred ''_hidden:ab'' TOTP, ex_cred ''x_hidden:abc'' TOTP]"
  have hid: "is_hidden ex_lib (ex_cred ''_hidden:ab'' TOTP)"
    "\<not> is_hidden ex_lib (ex_cred ''x_hidden:abc'' TOTP)"
    by (simp_all add: ex_lib_def ex_cred_def)
  have dec: "\<forall>c\<in>set ?creds. \<exists>s. string_id c = Inr s"
    by (simp add: ex_ids)
  have flt: "filter (\<lambda>c. \<not> is_hidden ex_lib c) ?creds = [ex_cred ''x_hidden:abc'' TOTP]"
    using hid by simp
  have low: "lower ex_lib (str ''_hidden:ab'') = str ''_hidden:ab''"
    "lower ex_lib (str ''x_hidden:abc'') = str ''x_hidden:abc''"
    by (simp_all add: ex_lib_def ascii_lower_def str_def)
  have "search ex_lib [ex_cred ''x_hidden:abc'' TOTP] (str ''_hidden:ab'') True
          = Inr [ex_cred ''x_hidden:abc'' TOTP]"
    by (simp add: search_def ex_ids low) (simp add: str_def)
  with search_excludes_hidden [of ex_lib ?creds "str ''_hidden:ab''" "[]"] dec flt
  have "search ex_lib ?creds (str ''_hidden:ab'') False = Inr [ex_cred ''x_hidden:abc'' TOTP]"
    by simp
  with hid show ?thesis by simp
qed

subsection \<open>Unlocking\<close>

lemma setdefault_keys_simps [simp]:
  "session (setdefault_keys w) = session w"
  "trace (setdefault_keys w) = trace w"
  "keys_file (setdefault_keys w) = keys_file w"
  "the_keys (setdefault_keys w) = the_keys w"
  by (simp_all add: setdefault_keys_def the_keys_def split: option.splits)

lemma log_simps [simp]:
  "session (log e w) = session w"
  "trace (log e w) = trace w @ [e]"
  "keys (log e w) = keys w"
  "keys_file (log e w) = keys_file w"
  "the_keys (log e w) = the_keys w"
  by (simp_all add: log_def the_keys_def)

lemma the_keys_session_update [simp]: "the_keys (w\<lparr>session := s\<rparr>) = the_keys w"
  by (simp add: the_keys_def)

text \<open>
  C5. On a session that is not locked, \<^verbatim>\<open>_init_session\<close> fails with "Password
  provided, but no password is set." when a non-empty password is given, and returns
  when none is (\<^verbatim>\<open>None\<close> or \<^verbatim>\<open>""\<close>). Either way nothing is asked of the session or
  the user and nothing is written (the trace and the device are as before), and the
  remembered keys are the same mapping, in memory and in the saved settings.
\<close>

theorem init_session_unlocked:
  assumes "\<not> sess_locked S (session w)"
  shows "(truthy password \<longrightarrow>
            fst (init_session L S w password remember prompt typed) = Inl UnexpectedPassword)
       \<and> (\<not> truthy password \<longrightarrow>
            fst (init_session L S w password remember prompt typed) = Inr ())
       \<and> session (snd (init_session L S w password remember prompt typed)) = session w
       \<and> trace (snd (init_session L S w password remember prompt typed)) = trace w
       \<and> the_keys (snd (init_session L S w password remember prompt typed)) = the_keys w
       \<and> keys_file (snd (init_session L S w password remember prompt typed)) = keys_file w"
  using assms by (simp add: init_session_def Let_def)

theorem init_session_unlocked_witness:
  "fst (init_session ex_lib ex_session (ex_world (ex_device (5, 2, 4) [])) (Some (str ''pw''))
          False (str ''Enter the password'') []) = Inl UnexpectedPassword
   \<and> fst (init_session ex_lib ex_session (ex_world (ex_device (5, 2, 4) [])) None
          True (str ''Enter the password'') []) = Inr ()
   \<and> trace (snd (init_session ex_lib ex_session (ex_world (ex_device (5, 2, 4) [])) None
          True (str ''Enter the password'') [])) = []"
proof -
  have unlocked: "\<not> sess_locked ex_session (session (ex_world (ex_device (5, 2, 4) [])))"
    by (simp add: ex_session_def ex_world_def ex_device_def)
  have pw: "truthy (Some (str ''pw''))"
    by (simp add: str_def)
  have tr: "trace (ex_world (ex_device (5, 2, 4) [])) = []"
    by (simp add: ex_world_def)
  from init_session_unlocked [OF unlocked, of "Some (str ''pw'')" ex_lib False
      "str ''Enter the password''" "[]"] pw
  have a: "fst (init_session ex_lib ex_session (ex_world (ex_device (5, 2, 4) []))
             (Some (str ''pw'')) False (str ''Enter the password'') []) = Inl UnexpectedPassword"
    by blast
  from init_session_unlocked [OF unlocked, of None ex_lib True
      "str ''Enter the password''" "[]"] tr
  have b: "fst (init_session ex_lib ex_session (ex_world (ex_device (5, 2, 4) [])) None
          True (str ''Enter the password'') []) = Inr ()
     \<and> trace (snd (init_session ex_lib ex_session (ex_world (ex_device (5, 2, 4) [])) None
          True (str ''Enter the password'') [])) = []"
    by simp
  from a b show ?thesis by blast
qed

text \<open>
  C6. When \<^verbatim>\<open>session.validate(key)\<close> raises, whatever it raises, \<^verbatim>\<open>_validate\<close> fails
  with "Authentication to the YubiKey failed. Wrong password?", and the remembered keys
  are not changed. So does \<^verbatim>\<open>_init_session\<close> on a locked session, for the key of any
  of its three sources (the password given, the remembered key, the password typed).
\<close>

theorem validate_failure_is_authentication_failed:
  assumes "fst (sess_validate S (session w) key) = Inl e"
  shows "fst (validate L S w key remember) = Inl AuthenticationFailed
       \<and> the_keys (snd (validate L S w key remember)) = the_keys w
       \<and> keys_file (snd (validate L S w key remember)) = keys_file w
       \<and> (sess_locked S (session w0) \<longrightarrow>
            unlock_key L S (setdefault_keys w0) password prompt typed = (Inr key, w) \<longrightarrow>
            fst (init_session L S w0 password remember prompt typed) = Inl AuthenticationFailed)"
proof -
  obtain r s' where r: "sess_validate S (session w) key = (r, s')"
    by (cases "sess_validate S (session w) key")
  with assms have "r = Inl e" by simp
  with r have v: "validate L S w key remember
                    = (Inl AuthenticationFailed, (log (Validate key) w)\<lparr>session := s'\<rparr>)"
    by (simp add: validate_def Let_def)
  then show ?thesis
    by (simp add: init_session_def Let_def)
qed

theorem validate_failure_is_authentication_failed_witness:
  "fst (init_session ex_lib ex_session
          (ex_world ((ex_device (5, 2, 4) [])\<lparr>dev_locked := True\<rparr>))
          (Some (str ''bad'')) True (str ''Enter the password'') []) = Inl AuthenticationFailed
   \<and> fst (validate ex_lib (ex_session\<lparr>sess_validate := (\<lambda>s k. (Inl OtherException, s))\<rparr>)
          (ex_world ((ex_device (5, 2, 4) [])\<lparr>dev_locked := True\<rparr>)) ''key'' True)
       = Inl AuthenticationFailed"
proof -
  let ?start = "ex_world ((ex_device (5, 2, 4) [])\<lparr>dev_locked := True\<rparr>)"
  let ?derived = "log (DeriveKey (str ''bad'')) (setdefault_keys ?start)"
  let ?S' = "ex_session\<lparr>sess_validate := (\<lambda>s k. (Inl OtherException, s))\<rparr>"
  have locked: "sess_locked ex_session (session ?start)"
    by (simp add: ex_session_def ex_world_def ex_device_def)
  have key: "unlock_key ex_lib ex_session (setdefault_keys ?start) (Some (str ''bad''))
               (str ''Enter the password'') [] = (Inr ''wrong'', ?derived)"
    by (simp add: unlock_key_def Let_def ex_session_def str_def)
  have wrong: "fst (sess_validate ex_session (session ?derived) ''wrong'')
                 = Inl (ApduError (OTHER_SW 0x6A80))"
    by (simp add: ex_session_def ex_world_def ex_device_def)
  have transport: "fst (sess_validate ?S' (session ?start) ''key'') = Inl OtherException"
    by simp
  from validate_failure_is_authentication_failed [OF wrong, of ex_lib True ?start
      "Some (str ''bad'')" "str ''Enter the password''" "[]"] locked key
  have a: "fst (init_session ex_lib ex_session ?start (Some (str ''bad'')) True
             (str ''Enter the password'') []) = Inl AuthenticationFailed"
    by blast
  from validate_failure_is_authentication_failed [OF transport, of ex_lib True]
  have b: "fst (validate ex_lib ?S' ?start ''key'' True) = Inl AuthenticationFailed"
    by blast
  from a b show ?thesis by blast
qed

text \<open>
  The other end of \<^verbatim>\<open>_init_session\<close>: a locked session, no password given, no key
  remembered; the password typed validates and \<^verbatim>\<open>remember\<close> is set. Then the command
  returns, the key is remembered under the device id, and the settings are saved.
\<close>

lemma init_session_prompt_remember:
  assumes "sess_locked S (session w)" "\<not> truthy password"
      and "the_keys w (sess_device_id S (session w)) = None"
      and "sess_validate S (session w) (sess_derive_key S (session w) typed) = (Inr (), s')"
  shows "fst (init_session L S w password True prompt typed) = Inr ()
       \<and> the_keys (snd (init_session L S w password True prompt typed)) (sess_device_id S s')
           = Some (bytes_hex L (sess_derive_key S (session w) typed))
       \<and> keys_file (snd (init_session L S w password True prompt typed))
           = keys (snd (init_session L S w password True prompt typed))"
proof -
  let ?key = "sess_derive_key S (session w) typed"
  let ?asked = "log (DeriveKey typed) (log (Prompt prompt) (setdefault_keys w))"
  from assms(2,3)
  have "unlock_key L S (setdefault_keys w) password prompt typed = (Inr ?key, ?asked)"
    by (simp add: unlock_key_def Let_def)
  with assms(1)
  have run: "init_session L S w password True prompt typed = validate L S ?asked ?key True"
    by (simp add: init_session_def Let_def)
  from assms(4) show ?thesis
    unfolding run
    by (simp add: validate_def Let_def settings_write_def the_keys_def log_def)
qed

subsection \<open>Admission\<close>

lemma utf8_encode_ascii:
  "\<forall>b\<in>set s. (of_char b :: nat) < 0x80 \<Longrightarrow> utf8_encode (str s) = Some s"
  by (induction s) (simp_all add: str_def utf8_char_def)




text \<open>
  What \<open>add_cred\<close> does when none of the five checks before the listing fails: it
  ends with the exception of \<^verbatim>\<open>get_id\<close>, or goes on with the id.
\<close>

lemma add_cred_no_id:
  assumes "\<not> name_length_bad data" "\<not> secret_too_short data"
    "\<not> touch_unsupported (sess_version S (session w)) touch" "\<not> counter_misused data"
    "\<not> sha512_unsupported L (sess_version S (session w)) data"
    and "get_id L data = None"
  shows "add_cred L S w data touch force answer = (Inl UnicodeEncodeError, log ListCredentials w)"
  using assms by (simp add: add_cred_def Let_def)

lemma add_cred_listed:
  assumes "\<not> name_length_bad data" "\<not> secret_too_short data"
    "\<not> touch_unsupported (sess_version S (session w)) touch" "\<not> counter_misused data"
    "\<not> sha512_unsupported L (sess_version S (session w)) data"
    and "get_id L data = Some cid"
  shows "add_cred L S w data touch force answer =
     (let creds = sess_list_credentials S (session w);
          w1 = log ListCredentials w;
          w2 = (if overwrite_asked creds cid force
                then log (Confirm (overwrite_question data)) w1 else w1)
      in
      if overwrite_asked creds cid force \<and> \<not> answer then (Inl Abort, w2)
      else if firmware_overwrite_issue (sess_version S (session w)) \<and> cred_is_subset creds cid
        then (Inl UnsafeOverwriteName, w2)
      else put_credential S w2 data touch)"
  using assms by (simp add: add_cred_def Let_def)

text \<open>
  When a check fails, \<open>add_cred\<close> ends with that check's error, the device is as it
  was, and the events are at most the listing of the credentials and the question.
\<close>

lemma add_cred_check_fails:
  assumes "find fst (admission_checks L (sess_version S (session w))
             (sess_list_credentials S (session w)) data touch force answer) = Some (b, e)"
  shows "fst (add_cred L S w data touch force answer) = Inl e
       \<and> session (snd (add_cred L S w data touch force answer)) = session w
       \<and> set (trace (snd (add_cred L S w data touch force answer)))
           \<subseteq> set (trace w) \<union> {ListCredentials, Confirm (overwrite_question data)}"
proof -
  let ?ver = "sess_version S (session w)"
  let ?creds = "sess_list_credentials S (session w)"
  note checks = admission_checks_def
  consider (name) "name_length_bad data"
    | (secret) "\<not> name_length_bad data" "secret_too_short data"
    | (touch) "\<not> name_length_bad data" "\<not> secret_too_short data" "touch_unsupported ?ver touch"
    | (counter) "\<not> name_length_bad data" "\<not> secret_too_short data"
        "\<not> touch_unsupported ?ver touch" "counter_misused data"
    | (sha512) "\<not> name_length_bad data" "\<not> secret_too_short data"
        "\<not> touch_unsupported ?ver touch" "\<not> counter_misused data"
        "sha512_unsupported L ?ver data"
    | (listed) "\<not> name_length_bad data" "\<not> secret_too_short data"
        "\<not> touch_unsupported ?ver touch" "\<not> counter_misused data"
        "\<not> sha512_unsupported L ?ver data"
    by blast
  then show ?thesis
  proof cases
    case name
    with assms have "e = InvalidName" by (simp add: checks)
    with name show ?thesis by (auto simp: add_cred_def)
  next
    case secret
    with assms have "e = SecretTooShort" by (simp add: checks)
    with secret show ?thesis by (auto simp: add_cred_def)
  next
    case touch
    with assms have "e = UnsupportedTouch" by (simp add: checks)
    with touch show ?thesis by (auto simp: add_cred_def)
  next
    case counter
    with assms have "e = CounterNotApplicable" by (simp add: checks)
    with counter show ?thesis by (auto simp: add_cred_def)
  next
    case sha512
    with assms have "e = UnsupportedAlgorithm" by (simp add: checks)
    with sha512 show ?thesis by (auto simp: add_cred_def)
  next
    case listed
    show ?thesis
    proof (cases "get_id L data")
      case None
      with assms listed have "e = UnicodeEncodeError" by (simp add: checks)
      then show ?thesis
        unfolding add_cred_no_id [OF listed None] by auto
    next
      case (Some cid)
      note unfolded = add_cred_listed [OF listed Some, of force answer]
      show ?thesis
      proof (cases "overwrite_asked ?creds cid force \<and> \<not> answer")
        case True
        with assms listed Some have "e = Abort" by (simp add: checks)
        with True show ?thesis unfolding unfolded by (auto simp: Let_def)
      next
        case confirmed: False
        show ?thesis
        proof (cases "firmware_overwrite_issue ?ver \<and> cred_is_subset ?creds cid")
          case True
          with assms listed Some confirmed have "e = UnsafeOverwriteName" by (simp add: checks)
          with True confirmed show ?thesis unfolding unfolded by (auto simp: Let_def)
        next
          case False
          with assms listed Some confirmed show ?thesis by (simp add: checks)
        qed
      qed
    qed
  qed
qed




text \<open>
  C1, amended. The guard of the source tests the other direction: it fires when the
  id of the candidate is a strict prefix of the id of an existing credential (the
  existing id starts with the candidate's and is not equal to it). On firmware strictly
  between (4, 0, 0) and (4, 3, 5) such a candidate is never submitted: \<^verbatim>\<open>_add_cred\<close>
  fails, the device is as it was, and nothing but the listing and the question
  happened. The failure is "Choose a name that is not a subset of an existing
  credential." whenever none of the checks before it fails.
\<close>

theorem add_cred_defect_guard:
  assumes "tuple_lt (4, 0, 0) (sess_version S (session w))"
      and "tuple_lt (sess_version S (session w)) (4, 3, 5)"
      and "get_id L data = Some cid"
      and "cred \<in> set (sess_list_credentials S (session w))"
      and "prefix cid (cred_id cred)"
      and "cred_id cred \<noteq> cid"
  shows "(\<exists>e. fst (add_cred L S w data touch force answer) = Inl e)
       \<and> session (snd (add_cred L S w data touch force answer)) = session w
       \<and> set (trace (snd (add_cred L S w data touch force answer)))
           \<subseteq> set (trace w) \<union> {ListCredentials, Confirm (overwrite_question data)}
       \<and> (\<not> name_length_bad data \<and> \<not> secret_too_short data
            \<and> \<not> touch_unsupported (sess_version S (session w)) touch
            \<and> \<not> counter_misused data
            \<and> \<not> sha512_unsupported L (sess_version S (session w)) data
            \<and> \<not> (overwrite_asked (sess_list_credentials S (session w)) cid force
                  \<and> \<not> answer)
            \<longrightarrow> fst (add_cred L S w data touch force answer) = Inl UnsafeOverwriteName)"
proof -
  let ?checks = "admission_checks L (sess_version S (session w))
                   (sess_list_credentials S (session w)) data touch force answer"
  from assms have guard: "firmware_overwrite_issue (sess_version S (session w))
     \<and> cred_is_subset (sess_list_credentials S (session w)) cid"
    by (auto simp: firmware_overwrite_issue_def cred_is_subset_def)
  with assms(3) have "find fst ?checks \<noteq> None"
    by (auto simp: find_None_iff admission_checks_def)
  then obtain b e where found: "find fst ?checks = Some (b, e)"
    by (cases "find fst ?checks") auto
  have "e = UnsafeOverwriteName"
    if "\<not> name_length_bad data" "\<not> secret_too_short data"
       "\<not> touch_unsupported (sess_version S (session w)) touch"
       "\<not> counter_misused data"
       "\<not> sha512_unsupported L (sess_version S (session w)) data"
       "\<not> (overwrite_asked (sess_list_credentials S (session w)) cid force
             \<and> \<not> answer)"
    using found that guard assms(3) by (simp add: admission_checks_def)
  with add_cred_check_fails [OF found] show ?thesis by blast
qed

theorem add_cred_defect_guard_witness:
  "fst (add_cred ex_lib ex_session (ex_world (ex_device (4, 1, 0) [ex_cred ''AB'' TOTP]))
          (ex_data (str ''A'')) False False False) = Inl UnsafeOverwriteName
   \<and> session (snd (add_cred ex_lib ex_session (ex_world (ex_device (4, 1, 0) [ex_cred ''AB'' TOTP]))
          (ex_data (str ''A'')) False False False)) = ex_device (4, 1, 0) [ex_cred ''AB'' TOTP]"
proof -
  let ?start = "ex_world (ex_device (4, 1, 0) [ex_cred ''AB'' TOTP])"
  have ver: "sess_version ex_session (session ?start) = (4, 1, 0)"
    and creds: "sess_list_credentials ex_session (session ?start) = [ex_cred ''AB'' TOTP]"
    and dev: "session ?start = ex_device (4, 1, 0) [ex_cred ''AB'' TOTP]"
    by (simp_all add: ex_session_def ex_world_def ex_device_def)
  have idA: "get_id ex_lib (ex_data (str ''A'')) = Some ''A''"
    by (simp add: ex_lib_def ex_data_def utf8_encode_ascii)
  have h1: "tuple_lt (4, 0, 0) (sess_version ex_session (session ?start))"
    and h2: "tuple_lt (sess_version ex_session (session ?start)) (4, 3, 5)"
    unfolding ver by simp_all
  have h3: "ex_cred ''AB'' TOTP \<in> set (sess_list_credentials ex_session (session ?start))"
    unfolding creds by simp
  have h4: "prefix ''A'' (cred_id (ex_cred ''AB'' TOTP))"
    and h5: "cred_id (ex_cred ''AB'' TOTP) \<noteq> ''A''"
    by (simp_all add: ex_cred_def)
  have pass: "\<not> name_length_bad (ex_data (str ''A''))" "\<not> secret_too_short (ex_data (str ''A''))"
    "\<not> touch_unsupported (sess_version ex_session (session ?start)) False"
    "\<not> counter_misused (ex_data (str ''A''))"
    "\<not> sha512_unsupported ex_lib (sess_version ex_session (session ?start)) (ex_data (str ''A''))"
    unfolding ver
    by (simp_all add: name_length_bad_def secret_too_short_def touch_unsupported_def
          counter_misused_def sha512_unsupported_def ex_data_def str_def)
  have fresh: "\<not> (overwrite_asked (sess_list_credentials ex_session (session ?start))
           ''A'' False \<and> \<not> False)"
    unfolding creds by (simp add: overwrite_asked_def ex_cred_def)
  from add_cred_defect_guard [OF h1 h2 idA h3 h4 h5, of False False False] pass fresh dev
  show ?thesis by simp
qed

text \<open>
  C1 as the specification states it fails: on firmware (4, 1, 0) with a stored credential
  of id "A", the candidate of id "AB" (the stored id is a strict prefix of it) passes
  the guard and is submitted.
\<close>

theorem add_cred_superstring_is_admitted:
  "tuple_lt (4, 0, 0) (4, 1, 0) \<and> tuple_lt (4, 1, 0) (4, 3, 5)
   \<and> get_id ex_lib (ex_data (str ''AB'')) = Some ''AB''
   \<and> prefix ''A'' ''AB''
   \<and> fst (add_cred ex_lib ex_session (ex_world (ex_device (4, 1, 0) [ex_cred ''A'' TOTP]))
          (ex_data (str ''AB'')) False False False) = Inr ()
   \<and> trace (snd (add_cred ex_lib ex_session (ex_world (ex_device (4, 1, 0) [ex_cred ''A'' TOTP]))
          (ex_data (str ''AB'')) False False False))
       = [ListCredentials, PutCredential (ex_data (str ''AB'')) False]"
proof -
  have idAB: "get_id ex_lib (ex_data (str ''AB'')) = Some ''AB''"
    by (simp add: ex_lib_def ex_data_def utf8_encode_ascii)
  have pass: "\<not> name_length_bad (ex_data (str ''AB''))" "\<not> secret_too_short (ex_data (str ''AB''))"
    "\<not> touch_unsupported (4, 1, 0) False" "\<not> counter_misused (ex_data (str ''AB''))"
    "\<not> sha512_unsupported ex_lib (4, 1, 0) (ex_data (str ''AB''))"
    by (simp_all add: name_length_bad_def secret_too_short_def touch_unsupported_def
          counter_misused_def sha512_unsupported_def ex_data_def str_def)
  have guard: "\<not> cred_is_subset [ex_cred ''A'' TOTP] ''AB''"
    "\<not> overwrite_asked [ex_cred ''A'' TOTP] ''AB'' False"
    by (simp_all add: cred_is_subset_def overwrite_asked_def ex_cred_def)
  have "add_cred ex_lib ex_session (ex_world (ex_device (4, 1, 0) [ex_cred ''A'' TOTP]))
          (ex_data (str ''AB'')) False False False
        = put_credential ex_session (log ListCredentials (ex_world (ex_device (4, 1, 0) [ex_cred ''A'' TOTP])))
            (ex_data (str ''AB'')) False"
    using pass guard
    by (simp add: add_cred_def Let_def idAB ex_session_def ex_world_def ex_device_def)
  moreover have "put_credential ex_session
      (log ListCredentials (ex_world (ex_device (4, 1, 0) [ex_cred ''A'' TOTP])))
      (ex_data (str ''AB'')) False
    = (Inr (), (log (PutCredential (ex_data (str ''AB'')) False)
         (log ListCredentials (ex_world (ex_device (4, 1, 0) [ex_cred ''A'' TOTP]))))
         \<lparr>session := (ex_device (4, 1, 0) [ex_cred ''A'' TOTP])
            \<lparr>dev_creds := [ex_cred ''A'' TOTP,
               \<lparr>cred_id = ''AB'', cred_oath_type = TOTP, cred_period = 30,
                 touch_required = False\<rparr>]\<rparr>\<rparr>)"
    by (simp add: put_credential_def ex_session_def ex_world_def ex_device_def idAB)
       (simp add: ex_data_def)
  ultimately show ?thesis
    by (simp add: idAB ex_world_def)
qed

text \<open>
  The length of a name in code points and in bytes: an encoded name is at least as long
  as the name, and empty only when the name is. So a name of no byte fails the check of
  \<^verbatim>\<open>_add_cred\<close> and a name of 1 to 64 bytes passes it, but the check is on code
  points: past 64 bytes it only fails when there are more than 64 code points.
\<close>

lemma utf8_char_length: "utf8_char cp = Some bs \<Longrightarrow> 1 \<le> length bs"
  by (auto simp: utf8_char_def split: if_splits)

lemma utf8_encode_length: "utf8_encode s = Some bs \<Longrightarrow> length s \<le> length bs"
proof (induction s arbitrary: bs)
  case Nil
  then show ?case by simp
next
  case (Cons cp s)
  from Cons.prems obtain b r where b: "utf8_char cp = Some b" and r: "utf8_encode s = Some r"
    and bs: "bs = b @ r"
    by (auto split: option.splits)
  from Cons.IH [OF r] utf8_char_length [OF b] bs show ?case by simp
qed

lemma name_check_in_bytes:
  assumes "utf8_encode (name data) = Some bs"
  shows "(length bs = 0 \<longrightarrow> name_length_bad data)
       \<and> (1 \<le> length bs \<and> length bs \<le> 64 \<longrightarrow> \<not> name_length_bad data)"
proof -
  from utf8_encode_length [OF assms] have le: "length (name data) \<le> length bs" .
  have "name data = [] \<Longrightarrow> bs = []"
    using assms by simp
  with le show ?thesis
    by (cases "name data") (auto simp: name_length_bad_def)
qed

lemma utf8_encode_append:
  "utf8_encode (a @ b) =
     (case utf8_encode a of
        None \<Rightarrow> None
      | Some x \<Rightarrow> (case utf8_encode b of None \<Rightarrow> None | Some y \<Rightarrow> Some (x @ y)))"
  by (induction a) (auto split: option.splits)

lemma utf8_encode_replicate_a:
  "utf8_encode (replicate n 97) = Some (replicate n (char_of (97 :: nat)))"
  by (induction n) (simp_all add: utf8_char_def)

text \<open>
  C7, where the code departs from it. The name \<open>ex_name65\<close> has 64 code points and 65
  bytes in UTF-8. \<^verbatim>\<open>len(data.name)\<close> is 64, the check passes, and the credential is
  submitted, although the name is longer than the 64 bytes of the message "Name must be
  between 1 and 64 bytes."
\<close>

theorem add_cred_admits_65_byte_name:
  "length ex_name65 = 64
   \<and> map_option length (utf8_encode ex_name65) = Some 65
   \<and> fst (add_cred ex_lib ex_session (ex_world (ex_device (5, 2, 4) [])) (ex_data ex_name65)
          False False False) = Inr ()"
proof -
  have len: "length ex_name65 = 64"
    by (simp add: ex_name65_def)
  have bytes: "map_option length (utf8_encode ex_name65) = Some 65"
    by (simp add: ex_name65_def utf8_encode_append utf8_encode_replicate_a utf8_char_def)
  have pass: "\<not> name_length_bad (ex_data ex_name65)" "\<not> secret_too_short (ex_data ex_name65)"
    "\<not> touch_unsupported (5, 2, 4) False" "\<not> counter_misused (ex_data ex_name65)"
    "\<not> sha512_unsupported ex_lib (5, 2, 4) (ex_data ex_name65)"
    using len
    by (simp_all add: name_length_bad_def secret_too_short_def touch_unsupported_def
          counter_misused_def sha512_unsupported_def ex_data_def)
  have id: "get_id ex_lib (ex_data ex_name65)
              = Some (replicate 63 (char_of (97 :: nat)) @ [char_of (195 :: nat), char_of (169 :: nat)])"
    by (simp add: ex_lib_def ex_data_def ex_name65_def utf8_encode_append
          utf8_encode_replicate_a utf8_char_def)
  have "fst (add_cred ex_lib ex_session (ex_world (ex_device (5, 2, 4) [])) (ex_data ex_name65)
          False False False) = Inr ()"
    using pass
    by (simp add: add_cred_def Let_def id overwrite_asked_def cred_is_subset_def
          put_credential_def ex_session_def ex_world_def ex_device_def)
  with len bytes show ?thesis by simp
qed

subsection \<open>Codes\<close>






text \<open>
  What the handler lets pass. On an HOTP credential, for which the batch holds no code,
  an \<^verbatim>\<open>ApduError\<close> of \<^verbatim>\<open>session.calculate_code\<close> with a status word other than
  \<^verbatim>\<open>SECURITY_CONDITION_NOT_SATISFIED\<close> is not raised again (the handlers in
  \<^verbatim>\<open>_add_cred\<close> and \<^verbatim>\<open>oath\<close> do raise again): \<^verbatim>\<open>code\<close> stays \<^verbatim>\<open>None\<close>, and
  \<^verbatim>\<open>code --single\<close> ends on \<^verbatim>\<open>code.value\<close> with an \<^verbatim>\<open>AttributeError\<close>. No code is
  printed.
\<close>

lemma code_single_hotp_apdu_error:
  "fst (code_cmd ex_lib ex_session
        (ex_world ((ex_device (5, 2, 4) [ex_cred ''hotp'' HOTP])
                     \<lparr>dev_calc := Inl (ApduError (OTHER_SW 0x6F00))\<rparr>))
        False (str ''hotp'') True None False []) = Inl AttributeError
   \<and> trace (snd (code_cmd ex_lib ex_session
        (ex_world ((ex_device (5, 2, 4) [ex_cred ''hotp'' HOTP])
                     \<lparr>dev_calc := Inl (ApduError (OTHER_SW 0x6F00))\<rparr>))
        False (str ''hotp'') True None False []))
      = [CalculateAll, PromptTimeout, CalculateCode (ex_cred ''hotp'' HOTP)]"
proof -
  let ?dev = "(ex_device (5, 2, 4) [ex_cred ''hotp'' HOTP])
                \<lparr>dev_calc := Inl (ApduError (OTHER_SW 0x6F00))\<rparr>"
  let ?cred = "ex_cred ''hotp'' HOTP"
  have hotp: "cred_oath_type ?cred = HOTP" and touch: "\<not> touch_required ?cred"
    by (simp_all add: ex_cred_def)
  have calc: "sess_calculate_code ex_session d ?cred = (dev_calc d, d)" for d
    by (simp add: ex_session_def)
  have resolve: "code_resolve ex_session u ?cred None
      = (Inr None, (log (CalculateCode ?cred) (log PromptTimeout u)))"
    if "session u = ?dev" for u :: "device world"
    using that hotp touch
    by (simp add: code_resolve_def try_calculate_code_def calc)
  have init: "init_session ex_lib ex_session (ex_world ?dev) None False
                (str ''Enter the password'') []
              = (Inr (), setdefault_keys (ex_world ?dev))"
    by (simp add: init_session_def Let_def ex_session_def ex_world_def ex_device_def)
  have sess: "session (ex_world ?dev) = ?dev"
    by (simp add: ex_world_def)
  have entries: "sess_calculate_all ex_session ?dev = [(?cred, None)]"
    by (simp add: ex_session_def ex_device_def hotp)
  have found: "search ex_lib [?cred] (str ''hotp'') False = Inr [?cred]"
    by (simp add: search_def string_id_ex_cred_ascii) (simp add: ex_lib_def ex_cred_def)
  have steam: "\<not> is_steam ex_lib ?cred"
    by (simp add: ex_lib_def ex_cred_def)
  have "code_cmd ex_lib ex_session (ex_world ?dev) False (str ''hotp'') True None False []
      = (Inl AttributeError,
           log (CalculateCode ?cred) (log PromptTimeout
             (log CalculateAll (setdefault_keys (ex_world ?dev)))))"
    using steam
    by (simp add: code_cmd_def Let_def init sess entries found entries_get_def resolve)
  then show ?thesis
    by (simp add: ex_world_def)
qed

subsection \<open>Operations on one credential\<close>

text \<open>The hits of a search all have a display identifier, and \<^verbatim>\<open>_error_multiple_hits\<close> prints them.\<close>

lemma search_decoded:
  assumes "search L creds q sh = Inr hits"
  shows "\<exists>ids. map string_id hits = map Inr ids"
proof -
  from assms have "\<forall>c\<in>set hits. \<exists>s. string_id c = Inr s"
    unfolding search_def by (rule search_loop_decoded) simp
  then show ?thesis
  proof (induction hits)
    case Nil
    then show ?case by simp
  next
    case (Cons c hits)
    then obtain s ids where "string_id c = Inr s" "map string_id hits = map Inr ids"
      by auto
    then have "map string_id (c # hits) = map Inr (s # ids)" by simp
    then show ?case by blast
  qed
qed

lemma echo_ids_decoded:
  "map string_id hits = map Inr ids \<Longrightarrow>
     echo_ids w hits = (Inr (), w\<lparr>trace := trace w @ map EchoErr ids\<rparr>)"
proof (induction hits arbitrary: w ids)
  case Nil
  then show ?case by simp
next
  case (Cons c hits)
  then obtain s rest where ids: "ids = s # rest" and s: "string_id c = Inr s"
    and rest: "map string_id hits = map Inr rest"
    by (cases ids) auto
  from Cons.IH [OF rest, of "log (EchoErr s) w"] s ids show ?case
    by (simp add: log_def)
qed

lemma error_multiple_hits_decoded:
  assumes "map string_id hits = map Inr ids"
  shows "error_multiple_hits w hits =
     (Inl (Exit 1),
      w\<lparr>trace := trace w
         @ [EchoErr (str ''Error: Multiple matches, please make the query more specific.''),
            EchoErr []]
         @ map EchoErr ids\<rparr>)"
  by (simp add: error_multiple_hits_def Let_def echo_ids_decoded [OF assms] log_def)

text \<open>
  C9, amended. Once \<^verbatim>\<open>_init_session\<close> has returned, in the state \<open>w1\<close>: when the search
  gives more than one credential, \<^verbatim>\<open>delete\<close> and \<^verbatim>\<open>code --single\<close> end with
  \<^verbatim>\<open>ctx.exit(1)\<close> after printing the message and the identifier of every hit, and the
  state is \<open>w1\<close> but for these events and the reading of the credentials (the device and
  the settings are as they were). When the search gives no credential,
  \<^verbatim>\<open>code --single\<close> fails with "No matching credential found.", and \<^verbatim>\<open>delete\<close> prints
  "No matches, nothing to be done." and returns; the state is changed by neither.
\<close>

theorem single_match_policy:
  assumes "init_session L S w password remember (str ''Enter the password'') typed = (Inr (), w1)"
  shows "(search L (sess_list_credentials S (session w1)) query True = Inr hits
            \<longrightarrow> 1 < length hits
            \<longrightarrow> (\<exists>ids. map string_id hits = map Inr ids
                  \<and> delete_cmd L S w query force password remember typed answer
                      = (Inl MultipleMatches,
                         w1\<lparr>trace := trace w1
                            @ [ListCredentials,
                               EchoErr (str ''Error: Multiple matches, please make the query more specific.''),
                               EchoErr []]
                            @ map EchoErr ids\<rparr>)))
       \<and> (search L (map fst (sess_calculate_all S (session w1))) query show_hidden = Inr hits
            \<longrightarrow> 1 < length hits
            \<longrightarrow> (\<exists>ids. map string_id hits = map Inr ids
                  \<and> code_cmd L S w show_hidden query True password remember typed
                      = (Inl MultipleMatches,
                         w1\<lparr>trace := trace w1
                            @ [CalculateAll,
                               EchoErr (str ''Error: Multiple matches, please make the query more specific.''),
                               EchoErr []]
                            @ map EchoErr ids\<rparr>)))
       \<and> (search L (map fst (sess_calculate_all S (session w1))) query show_hidden = Inr []
            \<longrightarrow> code_cmd L S w show_hidden query True password remember typed
                  = (Inl NoMatch, w1\<lparr>trace := trace w1 @ [CalculateAll]\<rparr>))
       \<and> (search L (sess_list_credentials S (session w1)) query True = Inr []
            \<longrightarrow> delete_cmd L S w query force password remember typed answer
                  = (Inr (), w1\<lparr>trace := trace w1
                       @ [ListCredentials, Echo (str ''No matches, nothing to be done.'')]\<rparr>))"
proof (intro conjI impI)
  assume found: "search L (sess_list_credentials S (session w1)) query True = Inr hits"
    and many: "1 < length hits"
  from search_decoded [OF found] obtain ids where ids: "map string_id hits = map Inr ids" ..
  from many have len: "length hits \<noteq> 0" "length hits \<noteq> 1" by auto
  have "delete_cmd L S w query force password remember typed answer
          = error_multiple_hits (log ListCredentials w1) hits"
    using len by (simp add: delete_cmd_def assms found Let_def)
  with ids show "\<exists>ids. map string_id hits = map Inr ids
      \<and> delete_cmd L S w query force password remember typed answer
          = (Inl MultipleMatches,
             w1\<lparr>trace := trace w1
                @ [ListCredentials,
                   EchoErr (str ''Error: Multiple matches, please make the query more specific.''),
                   EchoErr []]
                @ map EchoErr ids\<rparr>)"
    by (auto simp: error_multiple_hits_decoded [OF ids] log_def)
next
  assume found: "search L (map fst (sess_calculate_all S (session w1))) query show_hidden = Inr hits"
    and many: "1 < length hits"
  from search_decoded [OF found] obtain ids where ids: "map string_id hits = map Inr ids" ..
  from many obtain a b rest where hits: "hits = a # b # rest"
    by (cases hits; cases "tl hits") auto
  have "code_cmd L S w show_hidden query True password remember typed
          = error_multiple_hits (log CalculateAll w1) hits"
    by (simp add: code_cmd_def assms found [unfolded hits] Let_def hits)
  with ids show "\<exists>ids. map string_id hits = map Inr ids
      \<and> code_cmd L S w show_hidden query True password remember typed
          = (Inl MultipleMatches,
             w1\<lparr>trace := trace w1
                @ [CalculateAll,
                   EchoErr (str ''Error: Multiple matches, please make the query more specific.''),
                   EchoErr []]
                @ map EchoErr ids\<rparr>)"
    by (auto simp: error_multiple_hits_decoded [OF ids] log_def)
next
  assume "search L (map fst (sess_calculate_all S (session w1))) query show_hidden = Inr []"
  then show "code_cmd L S w show_hidden query True password remember typed
               = (Inl NoMatch, w1\<lparr>trace := trace w1 @ [CalculateAll]\<rparr>)"
    by (simp add: code_cmd_def assms Let_def log_def)
next
  assume "search L (sess_list_credentials S (session w1)) query True = Inr []"
  then show "delete_cmd L S w query force password remember typed answer
               = (Inr (), w1\<lparr>trace := trace w1
                    @ [ListCredentials, Echo (str ''No matches, nothing to be done.'')]\<rparr>)"
    by (simp add: delete_cmd_def assms Let_def log_def)
qed

theorem single_match_policy_witness:
  "fst (delete_cmd ex_lib ex_session
          (ex_world (ex_device (5, 2, 4) [ex_cred ''ab'' TOTP, ex_cred ''cab'' HOTP]))
          (str ''b'') True None False [] False) = Inl MultipleMatches
   \<and> trace (snd (delete_cmd ex_lib ex_session
          (ex_world (ex_device (5, 2, 4) [ex_cred ''ab'' TOTP, ex_cred ''cab'' HOTP]))
          (str ''b'') True None False [] False))
       = [ListCredentials,
          EchoErr (str ''Error: Multiple matches, please make the query more specific.''),
          EchoErr [], EchoErr (str ''ab''), EchoErr (str ''cab'')]
   \<and> session (snd (delete_cmd ex_lib ex_session
          (ex_world (ex_device (5, 2, 4) [ex_cred ''ab'' TOTP, ex_cred ''cab'' HOTP]))
          (str ''b'') True None False [] False))
       = ex_device (5, 2, 4) [ex_cred ''ab'' TOTP, ex_cred ''cab'' HOTP]"
proof -
  let ?dev = "ex_device (5, 2, 4) [ex_cred ''ab'' TOTP, ex_cred ''cab'' HOTP]"
  let ?hits = "[ex_cred ''ab'' TOTP, ex_cred ''cab'' HOTP]"
  let ?after = "setdefault_keys (ex_world ?dev)"
  have init: "init_session ex_lib ex_session (ex_world ?dev) None False
                (str ''Enter the password'') [] = (Inr (), ?after)"
    by (simp add: init_session_def Let_def ex_session_def ex_world_def ex_device_def)
  have creds: "sess_list_credentials ex_session (session ?after) = ?hits"
    by (simp add: ex_session_def ex_world_def ex_device_def)
  have low: "lower ex_lib (str ''b'') = str ''b''" "lower ex_lib (str ''ab'') = str ''ab''"
    "lower ex_lib (str ''cab'') = str ''cab''"
    by (simp_all add: ex_lib_def ascii_lower_def str_def)
  have found: "search ex_lib (sess_list_credentials ex_session (session ?after)) (str ''b'') True
                 = Inr ?hits"
    unfolding creds by (simp add: search_def ex_ids low) (simp add: str_def)
  have many: "1 < length ?hits"
    by simp
  from single_match_policy [OF init, THEN conjunct1, rule_format, OF found many,
      of True False]
  obtain ids where ids: "map string_id ?hits = map Inr ids"
    and run: "delete_cmd ex_lib ex_session (ex_world ?dev) (str ''b'') True None False [] False
      = (Inl MultipleMatches,
         ?after\<lparr>trace := trace ?after
            @ [ListCredentials,
               EchoErr (str ''Error: Multiple matches, please make the query more specific.''),
               EchoErr []]
            @ map EchoErr ids\<rparr>)"
    by blast
  from ids have "ids = [str ''ab'', str ''cab'']"
    by (auto simp: ex_ids)
  with run show ?thesis
    by (simp add: ex_world_def)
qed

text \<open>
  C9 as the specification states it fails for \<^verbatim>\<open>delete\<close>: with no credential that
  matches, the command does not abort, it prints "No matches, nothing to be done." and
  returns.
\<close>

theorem delete_without_match_returns:
  "search ex_lib [ex_cred ''ab'' TOTP] (str ''x'') True = Inr []
   \<and> fst (delete_cmd ex_lib ex_session (ex_world (ex_device (5, 2, 4) [ex_cred ''ab'' TOTP]))
          (str ''x'') False None False [] False) = Inr ()
   \<and> trace (snd (delete_cmd ex_lib ex_session (ex_world (ex_device (5, 2, 4) [ex_cred ''ab'' TOTP]))
          (str ''x'') False None False [] False))
       = [ListCredentials, Echo (str ''No matches, nothing to be done.'')]"
proof -
  let ?dev = "ex_device (5, 2, 4) [ex_cred ''ab'' TOTP]"
  let ?after = "setdefault_keys (ex_world ?dev)"
  have init: "init_session ex_lib ex_session (ex_world ?dev) None False
                (str ''Enter the password'') [] = (Inr (), ?after)"
    by (simp add: init_session_def Let_def ex_session_def ex_world_def ex_device_def)
  have creds: "sess_list_credentials ex_session (session (ex_world ?dev)) = [ex_cred ''ab'' TOTP]"
    by (simp add: ex_session_def ex_world_def ex_device_def)
  have low: "lower ex_lib (str ''x'') = str ''x''" "lower ex_lib (str ''ab'') = str ''ab''"
    by (simp_all add: ex_lib_def ascii_lower_def str_def)
  have found: "search ex_lib [ex_cred ''ab'' TOTP] (str ''x'') True = Inr []"
    by (simp add: search_def ex_ids low) (simp add: str_def)
  have "delete_cmd ex_lib ex_session (ex_world ?dev) (str ''x'') False None False [] False
      = (Inr (), log (Echo (str ''No matches, nothing to be done.''))
                   (log ListCredentials ?after))"
    by (simp add: delete_cmd_def init Let_def creds found)
  with found show ?thesis
    by (simp add: ex_world_def)
qed

text \<open>With hidden credentials shown, a search does not look at \<^verbatim>\<open>is_hidden\<close>.\<close>

lemma search_shown_ignores_is_hidden:
  "search (L\<lparr>is_hidden := h\<rparr>) creds q True = search L creds q True"
proof -
  have "search_loop (L\<lparr>is_hidden := h\<rparr>) creds q True hits = search_loop L creds q True hits"
    for hits
    by (induction creds arbitrary: hits) (simp_all split: sum.splits)
  then show ?thesis by (simp add: search_def)
qed

lemma init_session_ignores_is_hidden:
  "init_session (L\<lparr>is_hidden := h\<rparr>) S w password remember prompt typed
     = init_session L S w password remember prompt typed"
proof -
  have "unlock_key (L\<lparr>is_hidden := h\<rparr>) S u password prompt typed
          = unlock_key L S u password prompt typed" for u
    by (simp add: unlock_key_def Let_def split: option.splits)
  moreover have "validate (L\<lparr>is_hidden := h\<rparr>) S u key remember = validate L S u key remember"
    for u key
    by (simp add: validate_def Let_def split: prod.splits sum.splits)
  ultimately show ?thesis
    by (simp add: init_session_def Let_def split: prod.splits sum.splits)
qed

text \<open>
  C10. \<^verbatim>\<open>delete\<close> searches with hidden credentials shown: what it does is the same
  whatever \<^verbatim>\<open>is_hidden\<close> is. So when the first credential whose display identifier is
  the query is a hidden one, \<^verbatim>\<open>delete --force\<close> deletes it, with no option to show
  hidden credentials (the ids of the store being UTF-8).
\<close>

theorem delete_includes_hidden:
  assumes "init_session L S w password remember (str ''Enter the password'') typed = (Inr (), w1)"
      and "\<forall>c\<in>set (sess_list_credentials S (session w1)). \<exists>s. string_id c = Inr s"
      and "find (\<lambda>c. string_id c = Inr query) (sess_list_credentials S (session w1)) = Some cred"
      and "is_hidden L cred"
  shows "delete_cmd L S w query True password remember typed answer
           = (Inr (),
              w1\<lparr>session := sess_delete_credential S (session w1) (cred_id cred),
                 trace := trace w1
                   @ [ListCredentials, DeleteCredential (cred_id cred),
                      Echo (str ''Deleted '' @ query @ str ''.'')]\<rparr>)
       \<and> delete_cmd (L\<lparr>is_hidden := h\<rparr>) S w query force password remember typed answer
           = delete_cmd L S w query force password remember typed answer"
proof
  from assms(3) have sid: "string_id cred = Inr query"
    by (auto simp: find_Some_iff)
  from assms(3)
  have "find (\<lambda>c. (True \<or> \<not> is_hidden L c) \<and> string_id c = Inr query)
          (sess_list_credentials S (session w1)) = Some cred"
    by simp
  then have found: "search L (sess_list_credentials S (session w1)) query True = Inr [cred]"
    unfolding search_def search_loop_char [OF assms(2)] by simp
  show "delete_cmd L S w query True password remember typed answer
           = (Inr (),
              w1\<lparr>session := sess_delete_credential S (session w1) (cred_id cred),
                 trace := trace w1
                   @ [ListCredentials, DeleteCredential (cred_id cred),
                      Echo (str ''Deleted '' @ query @ str ''.'')]\<rparr>)"
    by (simp add: delete_cmd_def assms(1) found Let_def delete_one_def delete_credential_def
          sid log_def)
next
  show "delete_cmd (L\<lparr>is_hidden := h\<rparr>) S w query force password remember typed answer
           = delete_cmd L S w query force password remember typed answer"
    by (simp add: delete_cmd_def init_session_ignores_is_hidden search_shown_ignores_is_hidden
          Let_def split: prod.splits sum.splits)
qed

theorem delete_includes_hidden_witness:
  "is_hidden ex_lib (ex_cred ''_hidden:ab'' TOTP)
   \<and> fst (delete_cmd ex_lib ex_session
          (ex_world (ex_device (5, 2, 4) [ex_cred ''_hidden:ab'' TOTP, ex_cred ''ab'' TOTP]))
          (str ''_hidden:ab'') True None False [] False) = Inr ()
   \<and> trace (snd (delete_cmd ex_lib ex_session
          (ex_world (ex_device (5, 2, 4) [ex_cred ''_hidden:ab'' TOTP, ex_cred ''ab'' TOTP]))
          (str ''_hidden:ab'') True None False [] False))
       = [ListCredentials, DeleteCredential ''_hidden:ab'',
          Echo (str ''Deleted '' @ str ''_hidden:ab'' @ str ''.'')]
   \<and> dev_creds (session (snd (delete_cmd ex_lib ex_session
          (ex_world (ex_device (5, 2, 4) [ex_cred ''_hidden:ab'' TOTP, ex_cred ''ab'' TOTP]))
          (str ''_hidden:ab'') True None False [] False))) = [ex_cred ''ab'' TOTP]"
proof -
  let ?creds = "[ex_cred ''_hidden:ab'' TOTP, ex_cred ''ab'' TOTP]"
  let ?dev = "ex_device (5, 2, 4) ?creds"
  let ?after = "setdefault_keys (ex_world ?dev)"
  have init: "init_session ex_lib ex_session (ex_world ?dev) None False
                (str ''Enter the password'') [] = (Inr (), ?after)"
    by (simp add: init_session_def Let_def ex_session_def ex_world_def ex_device_def)
  have creds: "sess_list_credentials ex_session (session ?after) = ?creds"
    by (simp add: ex_session_def ex_world_def ex_device_def)
  have dec: "\<forall>c\<in>set (sess_list_credentials ex_session (session ?after)). \<exists>s. string_id c = Inr s"
    unfolding creds by (simp add: ex_ids)
  have first: "find (\<lambda>c. string_id c = Inr (str ''_hidden:ab''))
                 (sess_list_credentials ex_session (session ?after))
               = Some (ex_cred ''_hidden:ab'' TOTP)"
    unfolding creds by (simp add: ex_ids)
  have hid: "is_hidden ex_lib (ex_cred ''_hidden:ab'' TOTP)"
    by (simp add: ex_lib_def ex_cred_def)
  have del: "dev_creds (sess_delete_credential ex_session (session ?after)
               (cred_id (ex_cred ''_hidden:ab'' TOTP))) = [ex_cred ''ab'' TOTP]"
    by (simp add: ex_session_def ex_world_def ex_device_def ex_cred_def)
  have id: "cred_id (ex_cred ''_hidden:ab'' TOTP) = ''_hidden:ab''"
    by (simp add: ex_cred_def)
  from delete_includes_hidden [OF init dec first hid, THEN conjunct1, of False]
  have "delete_cmd ex_lib ex_session (ex_world ?dev) (str ''_hidden:ab'') True None False [] False
      = (Inr (),
         ?after\<lparr>session := sess_delete_credential ex_session (session ?after)
                     (cred_id (ex_cred ''_hidden:ab'' TOTP)),
            trace := trace ?after
              @ [ListCredentials, DeleteCredential (cred_id (ex_cred ''_hidden:ab'' TOTP)),
                 Echo (str ''Deleted '' @ str ''_hidden:ab'' @ str ''.'')]\<rparr>)" .
  with hid del id show ?thesis
    by (simp add: ex_world_def)
qed

end
